theory Spec2Isabelle
  imports Main "HOL-Library.Word"
begin

section \<open>JavaScript strings\<close>

text \<open>
  A JavaScript string is a sequence of 16-bit code units. Literals of the source are
  written \<open>js ''todo''\<close>.
\<close>

type_synonym jsstring = "16 word list"

definition js :: "string \<Rightarrow> jsstring" where
  "js s = map of_char s"

text \<open>
  \<^verbatim>\<open>String.prototype.trim\<close> strips the code units of WhiteSpace and LineTerminator
  (ECMA-262, 12.2 and 12.3) from both ends.
\<close>

definition isWhiteSpace :: "16 word \<Rightarrow> bool" where
  "isWhiteSpace c = (c \<in> set [0x0009, 0x000A, 0x000B, 0x000C, 0x000D, 0x0020, 0x00A0,
     0x1680, 0x2000, 0x2001, 0x2002, 0x2003, 0x2004, 0x2005, 0x2006, 0x2007, 0x2008,
     0x2009, 0x200A, 0x2028, 0x2029, 0x202F, 0x205F, 0x3000, 0xFEFF])"

definition trim :: "jsstring \<Rightarrow> jsstring" where
  "trim s = rev (dropWhile isWhiteSpace (rev (dropWhile isWhiteSpace s)))"

text \<open>
  The template literal \<^verbatim>\<open>`task-${Date.now()}`\<close> prints the clock value, an integral
  number of milliseconds, in decimal.
\<close>

fun digits :: "nat \<Rightarrow> jsstring" where
  "digits n = (if n < 10 then [of_nat (48 + n)]
               else digits (n div 10) @ [of_nat (48 + n mod 10)])"

declare digits.simps [simp del]

definition toString :: "int \<Rightarrow> jsstring" where
  "toString i = (if i < 0 then js ''-'' @ digits (nat (- i)) else digits (nat i))"

section \<open>Data model\<close>

text \<open>
  \<^verbatim>\<open>type Task = { id: string; content: string }\<close> and
  \<^verbatim>\<open>type Column = { id: string; title: string; tasks: Task[] }\<close>.
\<close>

record task =
  id_task :: jsstring
  content :: jsstring

record column =
  id_column :: jsstring
  title :: jsstring
  tasks :: "task list"

type_synonym board = "column list"

definition initialColumns :: board where
  "initialColumns =
     [\<lparr>id_column = js ''todo'', title = js ''To Do'', tasks = []\<rparr>,
      \<lparr>id_column = js ''doing'', title = js ''Doing'', tasks = []\<rparr>,
      \<lparr>id_column = js ''done'', title = js ''Done'', tasks = []\<rparr>]"

text \<open>The \<^verbatim>\<open>useState\<close> cells of the component \<^verbatim>\<open>KanbanBoard\<close>.\<close>

record kanban =
  columns :: board
  newTaskContent :: jsstring
  isEditing :: bool
  editTaskId :: "jsstring option"
  editContent :: jsstring
  isFullscreenViewOpen :: bool
  selectedTask :: "task option"

definition initialState :: kanban where
  "initialState =
     \<lparr>columns = initialColumns, newTaskContent = [], isEditing = False,
      editTaskId = None, editContent = [], isFullscreenViewOpen = False,
      selectedTask = None\<rparr>"

datatype js_error = TypeError | SyntaxError

text \<open>
  \<^verbatim>\<open>Array.prototype.findIndex\<close>: the first index whose element satisfies the
  predicate; \<open>None\<close> stands for the result \<open>-1\<close>. \<^verbatim>\<open>Array.prototype.find\<close> is
  \<^const>\<open>List.find\<close> and \<^verbatim>\<open>Array.prototype.some\<close> is \<^const>\<open>list_ex\<close>.
\<close>

fun findIndex :: "('a \<Rightarrow> bool) \<Rightarrow> 'a list \<Rightarrow> nat option" where
  "findIndex P [] = None"
| "findIndex P (x # xs) = (if P x then Some 0 else map_option Suc (findIndex P xs))"

definition all_tasks :: "board \<Rightarrow> task list" where
  "all_tasks b = concat (map tasks b)"

definition total_tasks :: "board \<Rightarrow> nat" where
  "total_tasks b = length (all_tasks b)"

section \<open>Interaction handlers\<close>

text \<open>
  Every handler reads the state cells of the last render and queues their new values;
  the model passes the record of cells through. The handlers mutate the column objects
  in place and then store a fresh array of the same objects. The column objects of a
  board are pairwise different objects, each with a task array of its own, so the
  in-place updates are updates at an index of the list. \<open>selectedTask\<close> refers to a
  task object of the board; the record keeps the task as it was when the detail view
  was opened, and nothing below depends on its content after a later edit. A handler
  that throws has not reached its \<^verbatim>\<open>setColumns\<close> call and has mutated nothing before
  the throw: the cells stay as they were (\<open>state_after\<close>).
\<close>

definition state_after :: "kanban \<Rightarrow> js_error + kanban \<Rightarrow> kanban" where
  "state_after st r = (case r of Inl e \<Rightarrow> st | Inr st' \<Rightarrow> st')"

text \<open>
  \<^verbatim>\<open>onDrop\<close>, with \<open>taskId\<close> the value of \<^verbatim>\<open>e.dataTransfer.getData('taskId')\<close>.
  \<^verbatim>\<open>columns[sourceColumnIndex]\<close> is \<^verbatim>\<open>undefined\<close> when the index is \<open>-1\<close>, and reading
  \<^verbatim>\<open>.tasks\<close> of it throws a TypeError. \<open>destinationColumn\<close> is a reference to the
  first column object with the given id, here its index: when it is the source column
  itself, the \<^verbatim>\<open>push\<close> goes to the array that the filter has just stored there.
\<close>

definition onDrop :: "jsstring \<Rightarrow> jsstring \<Rightarrow> kanban \<Rightarrow> js_error + kanban" where
  "onDrop taskId columnId st =
     (let sourceColumnIndex =
            findIndex (\<lambda>col. list_ex (\<lambda>t. id_task t = taskId) (tasks col)) (columns st);
          destinationColumn = findIndex (\<lambda>col. id_column col = columnId) (columns st)
      in case destinationColumn of
           None \<Rightarrow> Inr st
         | Some d \<Rightarrow>
             (case sourceColumnIndex of
                None \<Rightarrow> Inl TypeError
              | Some s \<Rightarrow>
                  (case List.find (\<lambda>t. id_task t = taskId) (tasks (columns st ! s)) of
                     None \<Rightarrow> Inr st
                   | Some t \<Rightarrow>
                       (let filtered = (columns st)
                              [s := (columns st ! s)
                                 \<lparr>tasks := filter (\<lambda>t. id_task t \<noteq> taskId)
                                             (tasks (columns st ! s))\<rparr>];
                            updatedColumns = filtered
                              [d := (filtered ! d)\<lparr>tasks := tasks (filtered ! d) @ [t]\<rparr>]
                        in Inr (st\<lparr>columns := updatedColumns\<rparr>)))))"

text \<open>
  \<^verbatim>\<open>handleCreateTask\<close>, with \<open>now\<close> the value of \<^verbatim>\<open>Date.now()\<close>. A non-empty string
  is truthy. \<^verbatim>\<open>updatedColumns[0]\<close> is \<^verbatim>\<open>undefined\<close> on a board without columns.
\<close>

definition handleCreateTask :: "int \<Rightarrow> kanban \<Rightarrow> js_error + kanban" where
  "handleCreateTask now st =
     (if trim (newTaskContent st) \<noteq> [] then
        (let newTask = \<lparr>id_task = js ''task-'' @ toString now,
                        content = newTaskContent st\<rparr>
         in case columns st of
              [] \<Rightarrow> Inl TypeError
            | c # cs \<Rightarrow>
                Inr (st\<lparr>columns := c\<lparr>tasks := tasks c @ [newTask]\<rparr> # cs,
                        newTaskContent := []\<rparr>))
      else Inr st)"

definition handleInputChange :: "jsstring \<Rightarrow> kanban \<Rightarrow> kanban" where
  "handleInputChange v st = st\<lparr>newTaskContent := v\<rparr>"

definition handleDeleteTask :: "jsstring \<Rightarrow> kanban \<Rightarrow> kanban" where
  "handleDeleteTask taskId st =
     st\<lparr>columns :=
          map (\<lambda>column. column\<lparr>tasks := filter (\<lambda>t. id_task t \<noteq> taskId) (tasks column)\<rparr>)
            (columns st)\<rparr>"

definition handleEditTask :: "jsstring \<Rightarrow> jsstring \<Rightarrow> kanban \<Rightarrow> kanban" where
  "handleEditTask taskId c st =
     st\<lparr>isEditing := True, editTaskId := Some taskId, editContent := c\<rparr>"

text \<open>
  The body of the \<^verbatim>\<open>forEach\<close> in \<^verbatim>\<open>handleSaveEdit\<close>: the first task of the column
  with the edited id, when there is one, gets the new content.
\<close>

definition saveInColumn :: "jsstring \<Rightarrow> jsstring \<Rightarrow> column \<Rightarrow> column" where
  "saveInColumn taskId c column =
     (case findIndex (\<lambda>t. id_task t = taskId) (tasks column) of
        None \<Rightarrow> column
      | Some taskIndex \<Rightarrow>
          column\<lparr>tasks := (tasks column)
                   [taskIndex := (tasks column ! taskIndex)\<lparr>content := c\<rparr>]\<rparr>)"

text \<open>
  \<^verbatim>\<open>handleSaveEdit\<close>. The guard \<^verbatim>\<open>editTaskId && editContent.trim()\<close> is falsy when
  \<open>editTaskId\<close> is \<^verbatim>\<open>null\<close> or the empty string, or when the trimmed buffer is empty.
\<close>

definition handleSaveEdit :: "kanban \<Rightarrow> kanban" where
  "handleSaveEdit st =
     (case editTaskId st of
        None \<Rightarrow> st
      | Some taskId \<Rightarrow>
          if taskId \<noteq> [] \<and> trim (editContent st) \<noteq> [] then
            st\<lparr>columns := map (saveInColumn taskId (editContent st)) (columns st),
               isEditing := False, editTaskId := None, editContent := []\<rparr>
          else st)"

definition handleCancelEdit :: "kanban \<Rightarrow> kanban" where
  "handleCancelEdit st = st\<lparr>isEditing := False, editTaskId := None, editContent := []\<rparr>"

definition openFullscreenView :: "task \<Rightarrow> kanban \<Rightarrow> kanban" where
  "openFullscreenView t st = st\<lparr>selectedTask := Some t, isFullscreenViewOpen := True\<rparr>"

definition closeFullscreenView :: "kanban \<Rightarrow> kanban" where
  "closeFullscreenView st = st\<lparr>isFullscreenViewOpen := False, selectedTask := None\<rparr>"

text \<open>
  The \<^verbatim>\<open>onClick\<close> of the Delete button of the detail view, rendered for the selected
  task \<open>t\<close>: \<^verbatim>\<open>handleDeleteTask(selectedTask.id); closeFullscreenView();\<close>
\<close>

definition deleteButton_onClick :: "task \<Rightarrow> kanban \<Rightarrow> kanban" where
  "deleteButton_onClick t st = closeFullscreenView (handleDeleteTask (id_task t) st)"

text \<open>
  What the detail view shows, as the JSX decides it: nothing unless
  \<^verbatim>\<open>isFullscreenViewOpen && selectedTask\<close>; the edit form when
  \<^verbatim>\<open>isEditing && editTaskId === selectedTask.id\<close>; the read-only view otherwise.
\<close>

datatype detail_view = Closed | Viewing task | Editing task

definition detailView :: "kanban \<Rightarrow> detail_view" where
  "detailView st =
     (if isFullscreenViewOpen st then
        (case selectedTask st of
           None \<Rightarrow> Closed
         | Some t \<Rightarrow>
             if isEditing st \<and> editTaskId st = Some (id_task t) then Editing t
             else Viewing t)
      else Closed)"

text \<open>
  The handlers that the JSX binds to user gestures, as one transition function. The
  buttons of the detail view act on the selected task; without one they are not rendered.
\<close>

datatype gesture =
    InputChange jsstring
  | AddTaskClick int
  | Drop jsstring jsstring
  | OpenDetailsClick task
  | EditClick
  | EditInputChange jsstring
  | SaveClick
  | CancelClick
  | DeleteClick
  | CloseClick

fun dispatch :: "gesture \<Rightarrow> kanban \<Rightarrow> js_error + kanban" where
  "dispatch (InputChange v) st = Inr (handleInputChange v st)"
| "dispatch (AddTaskClick now) st = handleCreateTask now st"
| "dispatch (Drop taskId columnId) st = onDrop taskId columnId st"
| "dispatch (OpenDetailsClick t) st = Inr (openFullscreenView t st)"
| "dispatch EditClick st =
     (case selectedTask st of
        None \<Rightarrow> Inr st
      | Some t \<Rightarrow> Inr (handleEditTask (id_task t) (content t) st))"
| "dispatch (EditInputChange v) st = Inr (st\<lparr>editContent := v\<rparr>)"
| "dispatch SaveClick st = Inr (handleSaveEdit st)"
| "dispatch CancelClick st = Inr (handleCancelEdit st)"
| "dispatch DeleteClick st =
     (case selectedTask st of
        None \<Rightarrow> Inr st
      | Some t \<Rightarrow> Inr (deleteButton_onClick t st))"
| "dispatch CloseClick st = Inr (closeFullscreenView st)"

text \<open>A run of create operations: each types a text and clicks Add at a clock value.\<close>

fun createAll :: "(int \<times> jsstring) list \<Rightarrow> kanban \<Rightarrow> js_error + kanban" where
  "createAll [] st = Inr st"
| "createAll ((now, text) # rest) st =
     (case handleCreateTask now (handleInputChange text st) of
        Inl e \<Rightarrow> Inl e
      | Inr st' \<Rightarrow> createAll rest st')"

section \<open>Persistence\<close>

text \<open>
  The board is mirrored to \<^verbatim>\<open>localStorage\<close> under the key \<^verbatim>\<open>kanban-columns\<close> with
  \<^verbatim>\<open>JSON.stringify\<close> and read back with \<^verbatim>\<open>JSON.parse\<close>. Both are built-ins of the
  JavaScript runtime; they are written out here after ECMA-262 (clause 25.5) as far as
  the source uses them: no replacer, no reviver, no indentation.
\<close>

subsection \<open>JSON values\<close>

text \<open>
  What \<^verbatim>\<open>JSON.parse\<close> returns. An object is the list of its properties in creation
  order. The parser checks the grammar of a number and keeps the text of the literal;
  its numeric value is not modelled.
\<close>

datatype json =
    JNull
  | JBool bool
  | JNumber jsstring
  | JString jsstring
  | JArray "json list"
  | JObject "(jsstring \<times> json) list"

subsection \<open>\<^verbatim>\<open>JSON.stringify\<close>\<close>

text \<open>
  \<open>UnicodeEscape\<close>: a backslash, \<open>u\<close> and the four lower-case hexadecimal digits of the
  code unit.
\<close>

definition hexChar :: "nat \<Rightarrow> 16 word" where
  "hexChar d = of_nat (if d < 10 then 48 + d else 87 + d)"

definition unicodeEscape :: "16 word \<Rightarrow> jsstring" where
  "unicodeEscape c = [0x5C, 0x75, hexChar (unat c div 4096), hexChar (unat c div 256 mod 16),
      hexChar (unat c div 16 mod 16), hexChar (unat c mod 16)]"

definition isLeadingSurrogate :: "16 word \<Rightarrow> bool" where
  "isLeadingSurrogate c = (0xD800 \<le> c \<and> c \<le> 0xDBFF)"

definition isTrailingSurrogate :: "16 word \<Rightarrow> bool" where
  "isTrailingSurrogate c = (0xDC00 \<le> c \<and> c \<le> 0xDFFF)"

text \<open>
  \<open>QuoteJSONString\<close> walks the code points of the string: backspace, tab, line feed, form
  feed, carriage return, the double quote and the backslash get their two-character
  escapes; other code units below \<open>0x20\<close> and surrogates without a partner get a
  \<open>UnicodeEscape\<close>; a leading surrogate followed by a trailing one is one code point and
  is copied, as is everything else.
\<close>

definition quoteUnit :: "16 word \<Rightarrow> jsstring" where
  "quoteUnit c =
     (if c = 0x08 then [0x5C, 0x62]
      else if c = 0x09 then [0x5C, 0x74]
      else if c = 0x0A then [0x5C, 0x6E]
      else if c = 0x0C then [0x5C, 0x66]
      else if c = 0x0D then [0x5C, 0x72]
      else if c = 0x22 then [0x5C, 0x22]
      else if c = 0x5C then [0x5C, 0x5C]
      else if c < 0x20 \<or> isLeadingSurrogate c \<or> isTrailingSurrogate c then unicodeEscape c
      else [c])"

fun quoteChars :: "jsstring \<Rightarrow> jsstring" where
  "quoteChars [] = []"
| "quoteChars [c] = quoteUnit c"
| "quoteChars (c # d # cs) =
     (if isLeadingSurrogate c \<and> isTrailingSurrogate d then c # d # quoteChars cs
      else quoteUnit c @ quoteChars (d # cs))"

definition QuoteJSONString :: "jsstring \<Rightarrow> jsstring" where
  "QuoteJSONString s = [0x22] @ quoteChars s @ [0x22]"

text \<open>
  \<open>SerializeJSONArray\<close> and \<open>SerializeJSONObject\<close> with an empty gap: the serialized
  elements, or the members \<open>key:value\<close> in property order, separated by commas.
\<close>

fun joinComma :: "jsstring list \<Rightarrow> jsstring" where
  "joinComma [] = []"
| "joinComma [x] = x"
| "joinComma (x # y # ys) = x @ [0x2C] @ joinComma (y # ys)"

definition SerializeJSONArray :: "jsstring list \<Rightarrow> jsstring" where
  "SerializeJSONArray elements = [0x5B] @ joinComma elements @ [0x5D]"

definition SerializeJSONObject :: "(jsstring \<times> jsstring) list \<Rightarrow> jsstring" where
  "SerializeJSONObject members =
     [0x7B] @ joinComma (map (\<lambda>(P, strP). QuoteJSONString P @ [0x3A] @ strP) members) @ [0x7D]"

subsection \<open>\<^verbatim>\<open>JSON.parse\<close>\<close>

text \<open>
  The string of a JSON text after its opening quote: any code unit from \<open>0x20\<close> on
  except the double quote and the backslash, or an escape: a backslash and then a
  double quote, a slash, a backslash, one of the letters \<open>b f n r t\<close>, or \<open>u\<close> and four
  hexadecimal digits of either case.
\<close>

definition hexDigit :: "16 word \<Rightarrow> nat option" where
  "hexDigit h =
     (let n = unat h
      in if 48 \<le> n \<and> n \<le> 57 then Some (n - 48)
         else if 97 \<le> n \<and> n \<le> 102 then Some (n - 87)
         else if 65 \<le> n \<and> n \<le> 70 then Some (n - 55)
         else None)"

definition hex4 :: "16 word \<Rightarrow> 16 word \<Rightarrow> 16 word \<Rightarrow> 16 word \<Rightarrow> 16 word option" where
  "hex4 a b c d =
     (case (hexDigit a, hexDigit b, hexDigit c, hexDigit d) of
        (Some x, Some y, Some z, Some w) \<Rightarrow> Some (of_nat (x * 4096 + y * 256 + z * 16 + w))
      | _ \<Rightarrow> None)"

definition unescape :: "16 word \<Rightarrow> 16 word option" where
  "unescape e =
     (if e = 0x22 then Some 0x22
      else if e = 0x2F then Some 0x2F
      else if e = 0x5C then Some 0x5C
      else if e = 0x62 then Some 0x08
      else if e = 0x66 then Some 0x0C
      else if e = 0x6E then Some 0x0A
      else if e = 0x72 then Some 0x0D
      else if e = 0x74 then Some 0x09
      else None)"

definition consResult :: "'a \<Rightarrow> ('a list \<times> 'b) option \<Rightarrow> ('a list \<times> 'b) option" where
  "consResult x r = (case r of None \<Rightarrow> None | Some (xs, rest) \<Rightarrow> Some (x # xs, rest))"

fun parseChars :: "jsstring \<Rightarrow> (jsstring \<times> jsstring) option" where
  "parseChars [] = None"
| "parseChars (c # s) =
     (if c = 0x22 then Some ([], s)
      else if c = 0x5C then
        (case s of
           [] \<Rightarrow> None
         | e # s1 \<Rightarrow>
             if e = 0x75 then
               (case s1 of
                  h1 # h2 # h3 # h4 # s2 \<Rightarrow>
                    (case hex4 h1 h2 h3 h4 of
                       None \<Rightarrow> None
                     | Some u \<Rightarrow> consResult u (parseChars s2))
                | _ \<Rightarrow> None)
             else
               (case unescape e of
                  None \<Rightarrow> None
                | Some u \<Rightarrow> consResult u (parseChars s1)))
      else if c < 0x20 then None
      else consResult c (parseChars s))"

text \<open>JSON white space is tab, line feed, carriage return and space.\<close>

definition isJSONWhiteSpace :: "16 word \<Rightarrow> bool" where
  "isJSONWhiteSpace c = (c = 0x09 \<or> c = 0x0A \<or> c = 0x0D \<or> c = 0x20)"

definition skipWs :: "jsstring \<Rightarrow> jsstring" where
  "skipWs s = dropWhile isJSONWhiteSpace s"

text \<open>
  A number is an optional minus, an integer part without a leading zero, an optional
  fraction and an optional exponent.
\<close>

definition isDigit :: "16 word \<Rightarrow> bool" where
  "isDigit c = (0x30 \<le> c \<and> c \<le> 0x39)"

definition digits1 :: "jsstring \<Rightarrow> (jsstring \<times> jsstring) option" where
  "digits1 s = (if takeWhile isDigit s = [] then None
                else Some (takeWhile isDigit s, dropWhile isDigit s))"

definition parseInt :: "jsstring \<Rightarrow> (jsstring \<times> jsstring) option" where
  "parseInt s =
     (case s of
        [] \<Rightarrow> None
      | c # r \<Rightarrow> if c = 0x30 then Some ([c], r) else digits1 s)"

definition parseFrac :: "jsstring \<Rightarrow> (jsstring \<times> jsstring) option" where
  "parseFrac s =
     (case s of
        [] \<Rightarrow> Some ([], s)
      | c # r \<Rightarrow>
          if c = 0x2E then
            (case digits1 r of None \<Rightarrow> None | Some (ds, rest) \<Rightarrow> Some (c # ds, rest))
          else Some ([], s))"

definition parseExp :: "jsstring \<Rightarrow> (jsstring \<times> jsstring) option" where
  "parseExp s =
     (case s of
        [] \<Rightarrow> Some ([], s)
      | c # r \<Rightarrow>
          if c = 0x65 \<or> c = 0x45 then
            (case r of
               [] \<Rightarrow> None
             | sg # r' \<Rightarrow>
                 if sg = 0x2B \<or> sg = 0x2D then
                   (case digits1 r' of
                      None \<Rightarrow> None
                    | Some (ds, rest) \<Rightarrow> Some (c # sg # ds, rest))
                 else
                   (case digits1 r of
                      None \<Rightarrow> None
                    | Some (ds, rest) \<Rightarrow> Some (c # ds, rest)))
          else Some ([], s))"

definition parseNumber :: "jsstring \<Rightarrow> (jsstring \<times> jsstring) option" where
  "parseNumber s =
     (let (sign, s0) = (case s of [] \<Rightarrow> ([], s) | c # r \<Rightarrow> if c = 0x2D then ([c], r) else ([], s))
      in case parseInt s0 of
           None \<Rightarrow> None
         | Some (i, s1) \<Rightarrow>
             (case parseFrac s1 of
                None \<Rightarrow> None
              | Some (f, s2) \<Rightarrow>
                  (case parseExp s2 of
                     None \<Rightarrow> None
                   | Some (e, s3) \<Rightarrow> Some (sign @ i @ f @ e, s3))))"

definition parseLiteral :: "jsstring \<Rightarrow> (json \<times> jsstring) option" where
  "parseLiteral s =
     (if take 4 s = js ''null'' then Some (JNull, drop 4 s)
      else if take 4 s = js ''true'' then Some (JBool True, drop 4 s)
      else if take 5 s = js ''false'' then Some (JBool False, drop 5 s)
      else (case parseNumber s of None \<Rightarrow> None | Some (n, rest) \<Rightarrow> Some (JNumber n, rest)))"

text \<open>
  The members of an object text define its properties one after the other: a key that
  is already there keeps its place and takes the new value.
\<close>

fun CreateDataProperty :: "(jsstring \<times> json) list \<Rightarrow> jsstring \<Rightarrow> json \<Rightarrow> (jsstring \<times> json) list" where
  "CreateDataProperty [] k v = [(k, v)]"
| "CreateDataProperty ((k', v') # ps) k v =
     (if k' = k then (k, v) # ps else (k', v') # CreateDataProperty ps k v)"

definition makeObject :: "(jsstring \<times> json) list \<Rightarrow> json" where
  "makeObject members = JObject (foldl (\<lambda>ps (k, v). CreateDataProperty ps k v) [] members)"

text \<open>
  Values, the elements of an array after its opening bracket and the members of an
  object after its opening brace. The recursion follows the input: every call on the
  rest of a parsed value works on a shorter text, which the two length tests make
  explicit for the termination proof (they never fail, see \<open>parseValue_shorter\<close>).
\<close>

lemma parseChars_shorter: "parseChars s = Some (r, rest) \<Longrightarrow> length rest < length s"
proof (induction s arbitrary: r rest rule: parseChars.induct)
  case 1
  then show ?case by simp
next
  case (2 c s)
  then show ?case
    by (auto simp add: consResult_def split: if_splits list.splits option.splits) force+
qed

lemma length_skipWs: "length (skipWs s) \<le> length s"
  by (simp add: skipWs_def length_dropWhile_le)

function parseValue :: "jsstring \<Rightarrow> (json \<times> jsstring) option"
  and parseElements :: "jsstring \<Rightarrow> (json list \<times> jsstring) option"
  and parseMembers :: "jsstring \<Rightarrow> ((jsstring \<times> json) list \<times> jsstring) option"
where
  "parseValue s =
     (case s of
        [] \<Rightarrow> None
      | c # r \<Rightarrow>
          if c = 0x22 then
            (case parseChars r of None \<Rightarrow> None | Some (str, rest) \<Rightarrow> Some (JString str, rest))
          else if c = 0x5B then
            (case skipWs r of
               [] \<Rightarrow> None
             | x # r' \<Rightarrow>
                 if x = 0x5D then Some (JArray [], r')
                 else (case parseElements (skipWs r) of
                         None \<Rightarrow> None
                       | Some (vs, rest) \<Rightarrow> Some (JArray vs, rest)))
          else if c = 0x7B then
            (case skipWs r of
               [] \<Rightarrow> None
             | x # r' \<Rightarrow>
                 if x = 0x7D then Some (JObject [], r')
                 else (case parseMembers (skipWs r) of
                         None \<Rightarrow> None
                       | Some (ms, rest) \<Rightarrow> Some (makeObject ms, rest)))
          else parseLiteral s)"
| "parseElements s =
     (case parseValue s of
        None \<Rightarrow> None
      | Some (v, r) \<Rightarrow>
          if length r < length s then
            (case skipWs r of
               [] \<Rightarrow> None
             | x # r' \<Rightarrow>
                 if x = 0x2C then consResult v (parseElements (skipWs r'))
                 else if x = 0x5D then Some ([v], r')
                 else None)
          else None)"
| "parseMembers s =
     (case s of
        [] \<Rightarrow> None
      | q # r \<Rightarrow>
          if q = 0x22 then
            (case parseChars r of
               None \<Rightarrow> None
             | Some (k, r1) \<Rightarrow>
                 (case skipWs r1 of
                    [] \<Rightarrow> None
                  | colon # r2 \<Rightarrow>
                      if colon = 0x3A then
                        (case parseValue (skipWs r2) of
                           None \<Rightarrow> None
                         | Some (v, r3) \<Rightarrow>
                             if length r3 < length s then
                               (case skipWs r3 of
                                  [] \<Rightarrow> None
                                | x # r4 \<Rightarrow>
                                    if x = 0x2C then consResult (k, v) (parseMembers (skipWs r4))
                                    else if x = 0x7D then Some ([(k, v)], r4)
                                    else None)
                             else None)
                      else None))
          else None)"
  by pat_completeness auto
termination
proof (relation "measure (\<lambda>x. case x of
           Inl s \<Rightarrow> 2 * length s
         | Inr (Inl s) \<Rightarrow> 2 * length s + 1
         | Inr (Inr s) \<Rightarrow> 2 * length s + 1)", goal_cases)
  case 1
  then show ?case by simp
next
  case (2 s c r x r')
  then show ?case using length_skipWs [of r] by simp
next
  case (3 s c r x r')
  then show ?case using length_skipWs [of r] by simp
next
  case (4 s)
  then show ?case by simp
next
  case (5 s p v r x r')
  then show ?case using length_skipWs [of r] length_skipWs [of r'] by simp
next
  case (6 s q r p k r1 colon r2)
  then show ?case
    using parseChars_shorter [of r k r1] length_skipWs [of r1] length_skipWs [of r2] by simp
next
  case (7 s q r p k r1 colon r2 p2 v r3 x r4)
  then show ?case using length_skipWs [of r3] length_skipWs [of r4] by simp
qed

declare parseValue.simps [simp del] parseElements.simps [simp del] parseMembers.simps [simp del]

text \<open>
  \<^verbatim>\<open>JSON.parse(text)\<close>: one value between optional white space, or a SyntaxError.
\<close>

definition JSON_parse :: "jsstring \<Rightarrow> js_error + json" where
  "JSON_parse text =
     (case parseValue (skipWs text) of
        None \<Rightarrow> Inl SyntaxError
      | Some (v, rest) \<Rightarrow> if skipWs rest = [] then Inr v else Inl SyntaxError)"

subsection \<open>The board in storage\<close>

text \<open>
  \<^verbatim>\<open>JSON.stringify(columns)\<close> at the type \<^verbatim>\<open>Column[]\<close>: the properties of a task and of
  a column are serialized in the order of the object literals that create them in the
  source (\<open>id\<close>, \<open>content\<close> and \<open>id\<close>, \<open>title\<close>, \<open>tasks\<close>).
\<close>

definition stringifyTask :: "task \<Rightarrow> jsstring" where
  "stringifyTask t =
     SerializeJSONObject
       [(js ''id'', QuoteJSONString (id_task t)),
        (js ''content'', QuoteJSONString (content t))]"

definition stringifyColumn :: "column \<Rightarrow> jsstring" where
  "stringifyColumn c =
     SerializeJSONObject
       [(js ''id'', QuoteJSONString (id_column c)),
        (js ''title'', QuoteJSONString (title c)),
        (js ''tasks'', SerializeJSONArray (map stringifyTask (tasks c)))]"

definition JSON_stringify :: "board \<Rightarrow> jsstring" where
  "JSON_stringify b = SerializeJSONArray (map stringifyColumn b)"

text \<open>The JavaScript value that a board is: an array of objects.\<close>

definition taskJson :: "task \<Rightarrow> json" where
  "taskJson t = JObject [(js ''id'', JString (id_task t)), (js ''content'', JString (content t))]"

definition columnJson :: "column \<Rightarrow> json" where
  "columnJson c =
     JObject [(js ''id'', JString (id_column c)), (js ''title'', JString (title c)),
              (js ''tasks'', JArray (map taskJson (tasks c)))]"

definition columnsJson :: "board \<Rightarrow> json" where
  "columnsJson b = JArray (map columnJson b)"

text \<open>
  \<^verbatim>\<open>setColumns(JSON.parse(savedColumns))\<close> stores whatever \<^verbatim>\<open>JSON.parse\<close> returns; the
  compiler takes it for a \<^verbatim>\<open>Column[]\<close> without any check at run time. \<open>asColumns\<close>
  reads a JSON value at that type: an array of objects with string properties \<open>id\<close> and
  \<open>title\<close> and an array \<open>tasks\<close> of objects with string properties \<open>id\<close> and
  \<open>content\<close>; further properties are ignored.
\<close>

definition asTask :: "json \<Rightarrow> task option" where
  "asTask j =
     (case j of
        JObject ps \<Rightarrow>
          (case (map_of ps (js ''id''), map_of ps (js ''content'')) of
             (Some (JString i), Some (JString c)) \<Rightarrow> Some \<lparr>id_task = i, content = c\<rparr>
           | _ \<Rightarrow> None)
      | _ \<Rightarrow> None)"

definition asArray :: "(json \<Rightarrow> 'a option) \<Rightarrow> json \<Rightarrow> 'a list option" where
  "asArray f j = (case j of JArray vs \<Rightarrow> those (map f vs) | _ \<Rightarrow> None)"

definition asColumn :: "json \<Rightarrow> column option" where
  "asColumn j =
     (case j of
        JObject ps \<Rightarrow>
          (case (map_of ps (js ''id''), map_of ps (js ''title''), map_of ps (js ''tasks'')) of
             (Some (JString i), Some (JString t), Some ts) \<Rightarrow>
               (case asArray asTask ts of
                  None \<Rightarrow> None
                | Some taskList \<Rightarrow> Some \<lparr>id_column = i, title = t, tasks = taskList\<rparr>)
           | _ \<Rightarrow> None)
      | _ \<Rightarrow> None)"

definition asColumns :: "json \<Rightarrow> board option" where
  "asColumns j = asArray asColumn j"

text \<open>
  \<^verbatim>\<open>localStorage\<close> maps keys to strings. The load effect runs once after the first
  render:
  \<^verbatim>\<open>const savedColumns = localStorage.getItem('kanban-columns');
  if (savedColumns) { setColumns(JSON.parse(savedColumns)); }\<close>
  \<^verbatim>\<open>getItem\<close> returns \<^verbatim>\<open>null\<close> for a missing key, and \<^verbatim>\<open>null\<close> and the empty string are
  falsy. Nothing catches what \<^verbatim>\<open>JSON.parse\<close> throws. A parsed value that is not a
  \<^verbatim>\<open>Column[]\<close> is stored all the same; the typed state record cannot hold it, so it is
  a result of its own (\<open>Untyped\<close>).
\<close>

type_synonym storage = "jsstring \<rightharpoonup> jsstring"

datatype load_result = Loaded kanban | Untyped json

definition loadEffect :: "storage \<Rightarrow> kanban \<Rightarrow> js_error + load_result" where
  "loadEffect localStorage st =
     (case localStorage (js ''kanban-columns'') of
        None \<Rightarrow> Inr (Loaded st)
      | Some savedColumns \<Rightarrow>
          if savedColumns \<noteq> [] then
            (case JSON_parse savedColumns of
               Inl e \<Rightarrow> Inl e
             | Inr v \<Rightarrow>
                 (case asColumns v of
                    None \<Rightarrow> Inr (Untyped v)
                  | Some b \<Rightarrow> Inr (Loaded (st\<lparr>columns := b\<rparr>))))
          else Inr (Loaded st))"

text \<open>
  The save effect runs after every render in which \<open>columns\<close> has changed:
  \<^verbatim>\<open>localStorage.setItem('kanban-columns', JSON.stringify(columns))\<close>.
\<close>

definition saveEffect :: "kanban \<Rightarrow> storage \<Rightarrow> storage" where
  "saveEffect st localStorage =
     localStorage(js ''kanban-columns'' \<mapsto> JSON_stringify (columns st))"

text \<open>
  Boards that the handlers themselves produce from the initial state: one task, two
  tasks, and two tasks created within the same millisecond.
\<close>

definition oneTaskBoard :: kanban where
  "oneTaskBoard = state_after initialState (createAll [(1000, js ''a'')] initialState)"

definition twoTaskBoard :: kanban where
  "twoTaskBoard = state_after initialState
     (createAll [(1000, js ''a''), (1001, js ''b'')] initialState)"

definition duplicateBoard :: kanban where
  "duplicateBoard = state_after initialState
     (createAll [(1000, js ''a''), (1000, js ''b'')] initialState)"

section \<open>Properties of the handlers\<close>

lemma findIndex_None_iff: "findIndex P xs = None \<longleftrightarrow> \<not> list_ex P xs"
  by (induction xs) auto

lemma findIndex_Some_less: "findIndex P xs = Some i \<Longrightarrow> i < length xs \<and> P (xs ! i)"
  by (induction xs arbitrary: i) (auto split: if_splits)


lemma findIndex_first:
  "\<not> list_ex P xs \<Longrightarrow> P x \<Longrightarrow> findIndex P (xs @ x # ys) = Some (length xs)"
  by (induction xs) auto

lemma find_first:
  "\<not> list_ex P xs \<Longrightarrow> P x \<Longrightarrow> List.find P (xs @ x # ys) = Some x"
  by (induction xs) auto

lemma find_Some_ex:
  "list_ex P xs \<Longrightarrow> \<exists>x. List.find P xs = Some x \<and> P x"
  by (induction xs) auto

lemma oneTaskBoard_columns:
  "columns oneTaskBoard =
     [\<lparr>id_column = js ''todo'', title = js ''To Do'',
       tasks = [\<lparr>id_task = js ''task-1000'', content = js ''a''\<rparr>]\<rparr>,
      \<lparr>id_column = js ''doing'', title = js ''Doing'', tasks = []\<rparr>,
      \<lparr>id_column = js ''done'', title = js ''Done'', tasks = []\<rparr>]"
  by (simp add: oneTaskBoard_def handleCreateTask_def handleInputChange_def initialState_def
      initialColumns_def js_def trim_def isWhiteSpace_def state_after_def toString_def
      digits.simps)

lemma duplicateBoard_columns:
  "columns duplicateBoard =
     [\<lparr>id_column = js ''todo'', title = js ''To Do'',
       tasks = [\<lparr>id_task = js ''task-1000'', content = js ''a''\<rparr>,
                \<lparr>id_task = js ''task-1000'', content = js ''b''\<rparr>]\<rparr>,
      \<lparr>id_column = js ''doing'', title = js ''Doing'', tasks = []\<rparr>,
      \<lparr>id_column = js ''done'', title = js ''Done'', tasks = []\<rparr>]"
  by (simp add: duplicateBoard_def handleCreateTask_def handleInputChange_def initialState_def
      initialColumns_def js_def trim_def isWhiteSpace_def state_after_def toString_def
      digits.simps)

subsection \<open>Create\<close>

text \<open>
  C1. Claim: after any run of create operations all task ids of the board are pairwise
  distinct, also when two creates read the same clock value. The id is made of the clock
  value alone: two creates at clock 1000 on the initial board give two tasks with the id
  \<open>task-1000\<close>.
\<close>

theorem C1_same_clock_same_id:
  "map id_task (all_tasks (columns (state_after initialState
      (createAll [(1000, js ''a''), (1000, js ''b'')] initialState))))
   = [js ''task-1000'', js ''task-1000'']"
  by (simp add: handleCreateTask_def handleInputChange_def initialState_def initialColumns_def
      js_def trim_def isWhiteSpace_def state_after_def all_tasks_def toString_def digits.simps)

text \<open>
  C4, as claimed: the new task's content is the trimmed input. The input \<open>" a"\<close> gives a
  task whose content is \<open>" a"\<close>, not \<open>"a"\<close>.
\<close>

theorem C4_counterexample:
  "map content (tasks (hd (columns (state_after initialState
      (handleCreateTask 1000 (handleInputChange (js '' a'') initialState))))))
     = [js '' a''] \<and> trim (js '' a'') = js ''a''"
  by (simp add: handleCreateTask_def handleInputChange_def initialState_def initialColumns_def
      js_def trim_def isWhiteSpace_def state_after_def)

text \<open>
  C4, amended: when the input trims to empty, create changes nothing; otherwise, on a
  board that has a first column, exactly one task is appended to the end of the first
  column, its content is the input as typed (not trimmed), the other columns stay as
  they are and the input buffer is cleared.
\<close>

theorem C4_handleCreateTask:
  "(trim (newTaskContent st) = [] \<longrightarrow> handleCreateTask now st = Inr st) \<and>
   (trim (newTaskContent st) \<noteq> [] \<and> columns st = c # cs \<longrightarrow>
      handleCreateTask now st =
        Inr (st\<lparr>columns :=
                  c\<lparr>tasks := tasks c @ [\<lparr>id_task = js ''task-'' @ toString now,
                                          content = newTaskContent st\<rparr>]\<rparr> # cs,
                newTaskContent := []\<rparr>))"
  by (simp add: handleCreateTask_def)

theorem C4_handleCreateTask_witness:
  "handleCreateTask 7 (handleInputChange (js '' '') initialState)
     = Inr (handleInputChange (js '' '') initialState) \<and>
   columns (state_after initialState
      (handleCreateTask 1000 (handleInputChange (js '' a'') initialState))) =
     [\<lparr>id_column = js ''todo'', title = js ''To Do'',
       tasks = [\<lparr>id_task = js ''task-1000'', content = js '' a''\<rparr>]\<rparr>,
      \<lparr>id_column = js ''doing'', title = js ''Doing'', tasks = []\<rparr>,
      \<lparr>id_column = js ''done'', title = js ''Done'', tasks = []\<rparr>]"
  using C4_handleCreateTask [where st = "handleInputChange (js '' '') initialState" and now = 7]
    C4_handleCreateTask [where st = "handleInputChange (js '' a'') initialState"
      and c = "\<lparr>id_column = js ''todo'', title = js ''To Do'', tasks = []\<rparr>"
      and cs = "[\<lparr>id_column = js ''doing'', title = js ''Doing'', tasks = []\<rparr>,
        \<lparr>id_column = js ''done'', title = js ''Done'', tasks = []\<rparr>]" and now = 1000]
  by (simp add: handleInputChange_def initialState_def initialColumns_def js_def trim_def
      isWhiteSpace_def state_after_def toString_def digits.simps)

subsection \<open>Save edit\<close>

lemma saveInColumn_absent:
  "\<not> list_ex (\<lambda>u. id_task u = taskId) (tasks c) \<Longrightarrow> saveInColumn taskId v c = c"
  by (simp add: saveInColumn_def findIndex_None_iff [symmetric])

lemma saveInColumn_first:
  "tasks c = xs @ t # ys \<Longrightarrow> id_task t = taskId \<Longrightarrow>
   \<not> list_ex (\<lambda>u. id_task u = taskId) xs \<Longrightarrow>
   saveInColumn taskId v c = c\<lparr>tasks := xs @ t\<lparr>content := v\<rparr> # ys\<rparr>"
  by (simp add: saveInColumn_def findIndex_first)

text \<open>
  C5, as claimed: the edited task's content becomes the trimmed buffer. Saving the buffer
  \<open>" y"\<close> stores \<open>" y"\<close>, not \<open>"y"\<close>.
\<close>

theorem C5_counterexample:
  "map content (all_tasks (columns (handleSaveEdit
      (handleEditTask (js ''task-1000'') (js '' y'') oneTaskBoard))))
     = [js '' y''] \<and> trim (js '' y'') = js ''y''"
  by (simp add: handleSaveEdit_def handleEditTask_def oneTaskBoard_columns saveInColumn_def
      all_tasks_def js_def trim_def isWhiteSpace_def)

text \<open>
  C5, amended: when the buffer trims to empty, or no task id is being edited, or the
  edited id is the empty string, save-edit changes nothing. Otherwise, in every column
  the first task with the edited id gets the buffer as typed (not trimmed) as its
  content, every other task and every column without such a task stay as they are, and
  the editing cells are reset (flag off, no id, empty buffer).
\<close>

theorem C5_handleSaveEdit:
  "(trim (editContent st) = [] \<or> editTaskId st = None \<or> editTaskId st = Some []
      \<longrightarrow> handleSaveEdit st = st) \<and>
   (editTaskId st = Some taskId \<and> taskId \<noteq> [] \<and> trim (editContent st) \<noteq> [] \<longrightarrow>
      length (columns (handleSaveEdit st)) = length (columns st) \<and>
      (\<forall>i xs t ys. i < length (columns st) \<and> tasks (columns st ! i) = xs @ t # ys \<and>
           id_task t = taskId \<and> \<not> list_ex (\<lambda>u. id_task u = taskId) xs \<longrightarrow>
         columns (handleSaveEdit st) ! i =
           (columns st ! i)\<lparr>tasks := xs @ t\<lparr>content := editContent st\<rparr> # ys\<rparr>) \<and>
      (\<forall>i. i < length (columns st) \<and>
           \<not> list_ex (\<lambda>u. id_task u = taskId) (tasks (columns st ! i)) \<longrightarrow>
         columns (handleSaveEdit st) ! i = columns st ! i) \<and>
      \<not> isEditing (handleSaveEdit st) \<and> editTaskId (handleSaveEdit st) = None \<and>
      editContent (handleSaveEdit st) = [])"
proof (intro conjI impI)
  assume "trim (editContent st) = [] \<or> editTaskId st = None \<or> editTaskId st = Some []"
  then show "handleSaveEdit st = st"
    by (auto simp add: handleSaveEdit_def split: option.splits)
next
  assume a: "editTaskId st = Some taskId \<and> taskId \<noteq> [] \<and> trim (editContent st) \<noteq> []"
  then have eq: "handleSaveEdit st =
      st\<lparr>columns := map (saveInColumn taskId (editContent st)) (columns st),
         isEditing := False, editTaskId := None, editContent := []\<rparr>"
    by (simp add: handleSaveEdit_def)
  show "length (columns (handleSaveEdit st)) = length (columns st)"
    by (simp add: eq)
  show "\<forall>i xs t ys. i < length (columns st) \<and> tasks (columns st ! i) = xs @ t # ys \<and>
           id_task t = taskId \<and> \<not> list_ex (\<lambda>u. id_task u = taskId) xs \<longrightarrow>
         columns (handleSaveEdit st) ! i =
           (columns st ! i)\<lparr>tasks := xs @ t\<lparr>content := editContent st\<rparr> # ys\<rparr>"
    by (simp add: eq saveInColumn_first)
  show "\<forall>i. i < length (columns st) \<and>
           \<not> list_ex (\<lambda>u. id_task u = taskId) (tasks (columns st ! i)) \<longrightarrow>
         columns (handleSaveEdit st) ! i = columns st ! i"
    by (simp add: eq saveInColumn_absent)
  show "\<not> isEditing (handleSaveEdit st)" by (simp add: eq)
  show "editTaskId (handleSaveEdit st) = None" by (simp add: eq)
  show "editContent (handleSaveEdit st) = []" by (simp add: eq)
qed

theorem C5_handleSaveEdit_witness:
  "handleSaveEdit (handleEditTask (js ''task-1000'') (js '' '') oneTaskBoard)
     = handleEditTask (js ''task-1000'') (js '' '') oneTaskBoard \<and>
   columns (handleSaveEdit (handleEditTask (js ''task-1000'') (js ''z'') oneTaskBoard)) ! 0
     = \<lparr>id_column = js ''todo'', title = js ''To Do'',
        tasks = [\<lparr>id_task = js ''task-1000'', content = js ''z''\<rparr>]\<rparr> \<and>
   columns (handleSaveEdit (handleEditTask (js ''task-1000'') (js ''z'') oneTaskBoard)) ! 1
     = \<lparr>id_column = js ''doing'', title = js ''Doing'', tasks = []\<rparr> \<and>
   \<not> isEditing (handleSaveEdit (handleEditTask (js ''task-1000'') (js ''z'') oneTaskBoard))"
proof -
  let ?blank = "handleEditTask (js ''task-1000'') (js '' '') oneTaskBoard"
  let ?st = "handleEditTask (js ''task-1000'') (js ''z'') oneTaskBoard"
  have b: "trim (editContent ?blank) = []"
    by (simp add: handleEditTask_def js_def trim_def isWhiteSpace_def)
  have h: "editTaskId ?st = Some (js ''task-1000'') \<and> js ''task-1000'' \<noteq> [] \<and>
           trim (editContent ?st) \<noteq> []"
    by (simp add: handleEditTask_def js_def trim_def isWhiteSpace_def)
  have c: "columns ?st = columns oneTaskBoard" and e: "editContent ?st = js ''z''"
    by (simp_all add: handleEditTask_def)
  note r = C5_handleSaveEdit [where st = ?st and taskId = "js ''task-1000''",
      THEN conjunct2, rule_format, OF h]
  have first: "columns (handleSaveEdit ?st) ! 0 =
      (columns ?st ! 0)\<lparr>tasks := [] @ \<lparr>id_task = js ''task-1000'', content = js ''a''\<rparr>
          \<lparr>content := editContent ?st\<rparr> # []\<rparr>"
    by (rule r [THEN conjunct2, THEN conjunct1, rule_format])
       (simp add: handleEditTask_def oneTaskBoard_columns)
  have second: "columns (handleSaveEdit ?st) ! 1 = columns ?st ! 1"
    by (rule r [THEN conjunct2, THEN conjunct2, THEN conjunct1, rule_format])
       (simp add: handleEditTask_def oneTaskBoard_columns js_def)
  have third: "\<not> isEditing (handleSaveEdit ?st)"
    using r by blast
  have zero: "handleSaveEdit ?blank = ?blank"
    using C5_handleSaveEdit [where st = ?blank] b by blast
  show ?thesis
    using zero first second third by (simp add: c e oneTaskBoard_columns)
qed

text \<open>
  C10. A save with a blank buffer while a task id is being edited changes no cell at all:
  the board, the editing flag, the edited id and the buffer stay as they are. Of all
  gestures, only Cancel and a Save that passes its guard turn the editing flag off.
\<close>

theorem C10_blank_save_keeps_editing:
  "(editTaskId st = Some taskId \<and> trim (editContent st) = [] \<longrightarrow> handleSaveEdit st = st) \<and>
   (isEditing st \<and> dispatch g st = Inr st' \<and> \<not> isEditing st' \<longrightarrow>
      g = CancelClick \<or>
      (g = SaveClick \<and> (\<exists>i. editTaskId st = Some i \<and> i \<noteq> []) \<and>
       trim (editContent st) \<noteq> []))"
proof (intro conjI impI)
  assume "editTaskId st = Some taskId \<and> trim (editContent st) = []"
  then show "handleSaveEdit st = st" by (simp add: handleSaveEdit_def)
next
  assume a: "isEditing st \<and> dispatch g st = Inr st' \<and> \<not> isEditing st'"
  show "g = CancelClick \<or>
      (g = SaveClick \<and> (\<exists>i. editTaskId st = Some i \<and> i \<noteq> []) \<and>
       trim (editContent st) \<noteq> [])"
  proof (cases g)
    case (AddTaskClick now)
    with a show ?thesis
      by (auto simp add: handleCreateTask_def Let_def split: if_splits list.splits)
  next
    case (Drop taskId columnId)
    with a show ?thesis
      by (auto simp add: onDrop_def Let_def split: option.splits)
  next
    case SaveClick
    with a show ?thesis
      by (auto simp add: handleSaveEdit_def split: option.splits if_splits)
  qed (use a in \<open>auto simp add: handleInputChange_def openFullscreenView_def
        handleEditTask_def deleteButton_onClick_def closeFullscreenView_def
        handleDeleteTask_def split: option.splits\<close>)
qed

theorem C10_blank_save_keeps_editing_witness:
  "handleSaveEdit (handleEditTask (js ''task-1000'') (js '' '') oneTaskBoard)
     = handleEditTask (js ''task-1000'') (js '' '') oneTaskBoard \<and>
   isEditing (handleEditTask (js ''task-1000'') (js '' '') oneTaskBoard) \<and>
   editTaskId (handleEditTask (js ''task-1000'') (js '' '') oneTaskBoard)
     = Some (js ''task-1000'') \<and>
   editContent (handleEditTask (js ''task-1000'') (js '' '') oneTaskBoard) = js '' '' \<and>
   dispatch CancelClick (handleEditTask (js ''task-1000'') (js '' '') oneTaskBoard)
     = Inr (handleCancelEdit (handleEditTask (js ''task-1000'') (js '' '') oneTaskBoard)) \<and>
   \<not> isEditing (handleCancelEdit (handleEditTask (js ''task-1000'') (js '' '') oneTaskBoard))"
proof -
  let ?st = "handleEditTask (js ''task-1000'') (js '' '') oneTaskBoard"
  have h: "editTaskId ?st = Some (js ''task-1000'') \<and> trim (editContent ?st) = []"
    by (simp add: handleEditTask_def js_def trim_def isWhiteSpace_def)
  have k: "isEditing ?st \<and> dispatch CancelClick ?st = Inr (handleCancelEdit ?st) \<and>
           \<not> isEditing (handleCancelEdit ?st)"
    by (simp add: handleEditTask_def handleCancelEdit_def)
  have "handleSaveEdit ?st = ?st"
    using C10_blank_save_keeps_editing [where st = ?st and taskId = "js ''task-1000''"] h
    by blast
  moreover have "CancelClick = CancelClick \<or>
      (CancelClick = SaveClick \<and> (\<exists>i. editTaskId ?st = Some i \<and> i \<noteq> []) \<and>
       trim (editContent ?st) \<noteq> [])"
    using C10_blank_save_keeps_editing [where st = ?st and g = CancelClick
        and st' = "handleCancelEdit ?st"] k
    by blast
  ultimately show ?thesis
    using k by (simp add: handleEditTask_def)
qed

subsection \<open>Move\<close>

lemma onDrop_no_destination:
  "\<not> list_ex (\<lambda>col. id_column col = columnId) (columns st) \<Longrightarrow>
   onDrop taskId columnId st = Inr st"
  by (simp add: onDrop_def findIndex_None_iff [symmetric])

lemma onDrop_no_source:
  "\<not> list_ex (\<lambda>col. list_ex (\<lambda>t. id_task t = taskId) (tasks col)) (columns st) \<Longrightarrow>
   list_ex (\<lambda>col. id_column col = columnId) (columns st) \<Longrightarrow>
   onDrop taskId columnId st = Inl TypeError"
  using findIndex_None_iff [of "\<lambda>col. id_column col = columnId" "columns st"]
  by (auto simp add: onDrop_def findIndex_None_iff [symmetric] Let_def split: option.splits)

text \<open>
  C3. Claim: a move whose task id is in no column, or whose destination id names no
  column, returns the board unchanged and raises nothing. A missing destination does
  return at once (\<open>onDrop_no_destination\<close>); a missing task with an existing
  destination reads \<^verbatim>\<open>columns[-1].tasks\<close> and throws (\<open>onDrop_no_source\<close>). A drag
  that carries no task id (the empty string) dropped on the first column of the initial
  board:
\<close>

theorem C3_onDrop_unknown_task_throws:
  "onDrop [] (js ''todo'') initialState = Inl TypeError"
  by (simp add: onDrop_def initialState_def initialColumns_def js_def)

lemma total_tasks_update:
  "i < length b \<Longrightarrow>
   total_tasks (b[i := c]) + length (tasks (b ! i)) = total_tasks b + length (tasks c)"
proof (induction b arbitrary: i)
  case Nil
  then show ?case by simp
next
  case (Cons a b)
  then show ?case
    by (cases i) (auto simp add: total_tasks_def all_tasks_def)
qed

lemma length_filter_split:
  "length (filter (\<lambda>t. id_task t \<noteq> k) xs) + length (filter (\<lambda>t. id_task t = k) xs)
     = length xs"
  by (induction xs) auto

lemma filter_eq_nonempty:
  "list_ex (\<lambda>t. id_task t = k) xs \<Longrightarrow> 1 \<le> length (filter (\<lambda>t. id_task t = k) xs)"
  by (induction xs) auto

lemma filter_out_single:
  "\<not> list_ex (\<lambda>u. id_task u = k) xs \<Longrightarrow> \<not> list_ex (\<lambda>u. id_task u = k) ys \<Longrightarrow>
   id_task t = k \<Longrightarrow> filter (\<lambda>u. id_task u \<noteq> k) (xs @ t # ys) = xs @ ys"
  by (simp add: list_ex_iff filter_id_conv)

text \<open>
  C6, as claimed: every move keeps the total number of tasks. On the board with two
  tasks of the same id in one column, the filter of \<^verbatim>\<open>onDrop\<close> removes both and the
  push adds one: two tasks before the move, one after.
\<close>

theorem C6_counterexample:
  "total_tasks (columns duplicateBoard) = 2 \<and>
   total_tasks (columns (state_after duplicateBoard
      (onDrop (js ''task-1000'') (js ''doing'') duplicateBoard))) = 1"
  by (simp add: duplicateBoard_columns onDrop_def state_after_def total_tasks_def
      all_tasks_def js_def)

text \<open>
  C6, amended: on every board in which no column holds two tasks with the moved id, and
  for every destination column id, the total number of tasks is the same before and
  after the move (a move that throws leaves the board as it was).
\<close>

theorem C6_move_conserves_total:
  assumes once:
    "\<forall>c \<in> set (columns st). length (filter (\<lambda>t. id_task t = taskId) (tasks c)) \<le> 1"
  shows "total_tasks (columns (state_after st (onDrop taskId columnId st))) =
         total_tasks (columns st)"
proof (cases "findIndex (\<lambda>col. id_column col = columnId) (columns st)")
  case None
  then show ?thesis by (simp add: onDrop_def state_after_def)
next
  case (Some d)
  note dest = this
  show ?thesis
  proof (cases "findIndex (\<lambda>col. list_ex (\<lambda>t. id_task t = taskId) (tasks col)) (columns st)")
    case None
    with dest show ?thesis by (simp add: onDrop_def state_after_def)
  next
    case (Some s)
    let ?src = "columns st ! s"
    let ?filtered = "(columns st)
      [s := ?src\<lparr>tasks := filter (\<lambda>t. id_task t \<noteq> taskId) (tasks ?src)\<rparr>]"
    from Some have s: "s < length (columns st)"
      and ex: "list_ex (\<lambda>t. id_task t = taskId) (tasks ?src)"
      using findIndex_Some_less by fastforce+
    from dest have d: "d < length (columns st)"
      using findIndex_Some_less by fastforce
    from ex obtain t where t: "List.find (\<lambda>t. id_task t = taskId) (tasks ?src) = Some t"
      using find_Some_ex by fastforce
    have res: "onDrop taskId columnId st =
        Inr (st\<lparr>columns :=
               ?filtered[d := (?filtered ! d)\<lparr>tasks := tasks (?filtered ! d) @ [t]\<rparr>]\<rparr>)"
      using dest Some t by (simp add: onDrop_def Let_def)
    from s once have "length (filter (\<lambda>t. id_task t = taskId) (tasks ?src)) \<le> 1"
      by simp
    with filter_eq_nonempty [OF ex]
    have one: "length (filter (\<lambda>t. id_task t = taskId) (tasks ?src)) = 1"
      by arith
    have f: "total_tasks ?filtered + 1 = total_tasks (columns st)"
      using total_tasks_update [OF s,
          of "?src\<lparr>tasks := filter (\<lambda>t. id_task t \<noteq> taskId) (tasks ?src)\<rparr>"]
        length_filter_split [of taskId "tasks ?src"] one
      by simp
    have "total_tasks (?filtered[d := (?filtered ! d)\<lparr>tasks := tasks (?filtered ! d) @ [t]\<rparr>])
          = total_tasks ?filtered + 1"
      using total_tasks_update [of d ?filtered
          "(?filtered ! d)\<lparr>tasks := tasks (?filtered ! d) @ [t]\<rparr>"] d
      by simp
    with f show ?thesis by (simp add: res state_after_def)
  qed
qed

theorem C6_move_conserves_total_witness:
  "total_tasks (columns oneTaskBoard) = 1 \<and>
   total_tasks (columns (state_after oneTaskBoard
      (onDrop (js ''task-1000'') (js ''doing'') oneTaskBoard))) = 1"
proof -
  have h: "\<forall>c \<in> set (columns oneTaskBoard).
      length (filter (\<lambda>t. id_task t = js ''task-1000'') (tasks c)) \<le> 1"
    by (simp add: oneTaskBoard_columns)
  have one: "total_tasks (columns oneTaskBoard) = 1"
    by (simp add: oneTaskBoard_columns total_tasks_def all_tasks_def)
  show ?thesis
    using one C6_move_conserves_total [OF h, of "js ''doing''"] by simp
qed

text \<open>
  C8, as claimed: a move to the column that already holds the task takes the task from
  its position to the end of that column and leaves the other tasks as they are. In the
  column with two tasks of the same id, the move keeps the first and drops the second.
\<close>

theorem C8_counterexample:
  "all_tasks (columns duplicateBoard) =
     [\<lparr>id_task = js ''task-1000'', content = js ''a''\<rparr>,
      \<lparr>id_task = js ''task-1000'', content = js ''b''\<rparr>] \<and>
   all_tasks (columns (state_after duplicateBoard
      (onDrop (js ''task-1000'') (js ''todo'') duplicateBoard))) =
     [\<lparr>id_task = js ''task-1000'', content = js ''a''\<rparr>]"
  by (simp add: duplicateBoard_columns onDrop_def state_after_def all_tasks_def js_def)

text \<open>
  C8, amended: when the first column that holds a task with the given id holds exactly
  one such task, and the destination id designates that same column, the move puts the
  task at the end of the column, keeps the order of the column's other tasks and leaves
  every other column as it is.
\<close>

theorem C8_move_within_column:
  assumes src: "findIndex (\<lambda>col. list_ex (\<lambda>u. id_task u = taskId) (tasks col)) (columns st)
                  = Some s"
    and dst: "findIndex (\<lambda>col. id_column col = columnId) (columns st) = Some s"
    and pos: "tasks (columns st ! s) = xs @ t # ys"
    and t: "id_task t = taskId"
    and xs: "\<not> list_ex (\<lambda>u. id_task u = taskId) xs"
    and ys: "\<not> list_ex (\<lambda>u. id_task u = taskId) ys"
  shows "onDrop taskId columnId st =
           Inr (st\<lparr>columns := (columns st)[s := (columns st ! s)\<lparr>tasks := xs @ ys @ [t]\<rparr>]\<rparr>)"
proof -
  from src have s: "s < length (columns st)"
    using findIndex_Some_less by fastforce
  have "List.find (\<lambda>u. id_task u = taskId) (tasks (columns st ! s)) = Some t"
    using pos t xs by (simp add: find_first)
  moreover have "filter (\<lambda>u. id_task u \<noteq> taskId) (tasks (columns st ! s)) = xs @ ys"
    unfolding pos by (rule filter_out_single [OF xs ys t])
  ultimately show ?thesis
    using src dst s by (simp add: onDrop_def Let_def)
qed

lemma twoTaskBoard_columns:
  "columns twoTaskBoard =
     [\<lparr>id_column = js ''todo'', title = js ''To Do'',
       tasks = [\<lparr>id_task = js ''task-1000'', content = js ''a''\<rparr>,
                \<lparr>id_task = js ''task-1001'', content = js ''b''\<rparr>]\<rparr>,
      \<lparr>id_column = js ''doing'', title = js ''Doing'', tasks = []\<rparr>,
      \<lparr>id_column = js ''done'', title = js ''Done'', tasks = []\<rparr>]"
  by (simp add: twoTaskBoard_def handleCreateTask_def handleInputChange_def initialState_def
      initialColumns_def js_def trim_def isWhiteSpace_def state_after_def toString_def
      digits.simps)

theorem C8_move_within_column_witness:
  "findIndex (\<lambda>col. list_ex (\<lambda>u. id_task u = js ''task-1000'') (tasks col))
      (columns twoTaskBoard) = Some 0 \<and>
   findIndex (\<lambda>col. id_column col = js ''todo'') (columns twoTaskBoard) = Some 0 \<and>
   columns (state_after twoTaskBoard (onDrop (js ''task-1000'') (js ''todo'') twoTaskBoard)) =
     [\<lparr>id_column = js ''todo'', title = js ''To Do'',
       tasks = [\<lparr>id_task = js ''task-1001'', content = js ''b''\<rparr>,
                \<lparr>id_task = js ''task-1000'', content = js ''a''\<rparr>]\<rparr>,
      \<lparr>id_column = js ''doing'', title = js ''Doing'', tasks = []\<rparr>,
      \<lparr>id_column = js ''done'', title = js ''Done'', tasks = []\<rparr>]"
proof -
  let ?a = "\<lparr>id_task = js ''task-1000'', content = js ''a''\<rparr>"
  let ?b = "\<lparr>id_task = js ''task-1001'', content = js ''b''\<rparr>"
  have src: "findIndex (\<lambda>col. list_ex (\<lambda>u. id_task u = js ''task-1000'') (tasks col))
      (columns twoTaskBoard) = Some 0"
    by (simp add: twoTaskBoard_columns)
  have dst: "findIndex (\<lambda>col. id_column col = js ''todo'') (columns twoTaskBoard) = Some 0"
    by (simp add: twoTaskBoard_columns)
  have pos: "tasks (columns twoTaskBoard ! 0) = [] @ ?a # [?b]"
    by (simp add: twoTaskBoard_columns)
  have t: "id_task ?a = js ''task-1000''"
    by simp
  have xs: "\<not> list_ex (\<lambda>u. id_task u = js ''task-1000'') []"
    by simp
  have ys: "\<not> list_ex (\<lambda>u. id_task u = js ''task-1000'') [?b]"
    by (simp add: js_def)
  show ?thesis
    using src dst C8_move_within_column [OF src dst pos t xs ys]
    by (simp add: state_after_def twoTaskBoard_columns)
qed

subsection \<open>Detail view\<close>

lemma filter_no_id:
  "\<not> list_ex (\<lambda>u. id_task u = taskId)
       (concat (map (\<lambda>c. filter (\<lambda>t. id_task t \<noteq> taskId) (tasks c)) b))"
  by (induction b) (auto simp add: list_ex_iff)

text \<open>
  C9. In every state whose detail view is open on a task, the Delete button removes the
  tasks with that id from the board and closes the view: the open flag is off and no
  task is selected.
\<close>

theorem C9_delete_closes_detail_view:
  "isFullscreenViewOpen st \<and> selectedTask st = Some t \<longrightarrow>
     dispatch DeleteClick st = Inr (deleteButton_onClick t st) \<and>
     detailView (deleteButton_onClick t st) = Closed \<and>
     \<not> isFullscreenViewOpen (deleteButton_onClick t st) \<and>
     selectedTask (deleteButton_onClick t st) = None \<and>
     \<not> list_ex (\<lambda>u. id_task u = id_task t) (all_tasks (columns (deleteButton_onClick t st)))"
  using filter_no_id [of "id_task t" "columns st"]
  by (simp add: deleteButton_onClick_def closeFullscreenView_def handleDeleteTask_def
      detailView_def all_tasks_def comp_def)

theorem C9_delete_closes_detail_view_witness:
  "detailView (openFullscreenView \<lparr>id_task = js ''task-1000'', content = js ''a''\<rparr> oneTaskBoard)
     = Viewing \<lparr>id_task = js ''task-1000'', content = js ''a''\<rparr> \<and>
   dispatch DeleteClick
       (openFullscreenView \<lparr>id_task = js ''task-1000'', content = js ''a''\<rparr> oneTaskBoard)
     = Inr (deleteButton_onClick \<lparr>id_task = js ''task-1000'', content = js ''a''\<rparr>
         (openFullscreenView \<lparr>id_task = js ''task-1000'', content = js ''a''\<rparr> oneTaskBoard)) \<and>
   detailView (deleteButton_onClick \<lparr>id_task = js ''task-1000'', content = js ''a''\<rparr>
       (openFullscreenView \<lparr>id_task = js ''task-1000'', content = js ''a''\<rparr> oneTaskBoard))
     = Closed"
proof -
  let ?t = "\<lparr>id_task = js ''task-1000'', content = js ''a''\<rparr>"
  let ?st = "openFullscreenView ?t oneTaskBoard"
  have h: "isFullscreenViewOpen ?st \<and> selectedTask ?st = Some ?t"
    by (simp add: openFullscreenView_def)
  have v: "detailView ?st = Viewing ?t"
    by (simp add: detailView_def openFullscreenView_def oneTaskBoard_def state_after_def
        handleCreateTask_def handleInputChange_def initialState_def initialColumns_def
        js_def trim_def isWhiteSpace_def)
  show ?thesis
    using v h C9_delete_closes_detail_view [where st = ?st and t = ?t] by blast
qed

section \<open>Properties of the persistence\<close>

subsection \<open>Strings survive quoting\<close>

lemma unat_small: "n < 65536 \<Longrightarrow> unat (of_nat n :: 16 word) = n"
  by (simp add: unat_of_nat)

lemma unat_hexChar: "d < 16 \<Longrightarrow> unat (hexChar d) = (if d < 10 then 48 + d else 87 + d)"
  unfolding hexChar_def by (rule unat_small) simp

lemma hexDigit_hexChar: "d < 16 \<Longrightarrow> hexDigit (hexChar d) = Some d"
  by (simp add: hexDigit_def unat_hexChar Let_def)

lemma unat_16_bound: "unat (c :: 16 word) < 65536"
  using unsigned_less [of c, where 'a = nat] by simp

lemma hex_recombine:
  fixes n :: nat
  shows "n div 4096 * 4096 + n div 256 mod 16 * 256 + n div 16 mod 16 * 16 + n mod 16 = n"
proof -
  define x where "x = n div 256"
  define y where "y = n div 16"
  have xy: "x = y div 16"
    by (simp add: x_def y_def div_mult2_eq)
  have top: "n div 4096 = x div 16"
    by (simp add: x_def div_mult2_eq)
  have x: "x div 16 * 16 + x mod 16 = x"
    by (rule div_mult_mod_eq)
  have y: "x * 16 + y mod 16 = y"
    unfolding xy by (rule div_mult_mod_eq)
  have n: "y * 16 + n mod 16 = n"
    unfolding y_def by (rule div_mult_mod_eq)
  have alg1: "a * 4096 + b * 256 = (a * 16 + b) * 256" for a b :: nat
    by simp
  have alg2: "a * 256 + b * 16 = (a * 16 + b) * 16" for a b :: nat
    by simp
  have "x div 16 * 4096 + x mod 16 * 256 + y mod 16 * 16 + n mod 16 = n"
    by (simp only: alg1 x alg2 y n)
  then show ?thesis
    by (simp only: top x_def [symmetric] y_def [symmetric])
qed

lemma top_digit: "unat (c :: 16 word) div 4096 < 16"
  using unat_16_bound [of c] by (simp add: less_mult_imp_div_less)

lemma hex4_unicodeEscape:
  "hex4 (hexChar (unat c div 4096)) (hexChar (unat c div 256 mod 16))
        (hexChar (unat c div 16 mod 16)) (hexChar (unat c mod 16)) = Some c"
proof -
  have "(of_nat (unat c div 4096 * 4096 + unat c div 256 mod 16 * 256
     + unat c div 16 mod 16 * 16 + unat c mod 16) :: 16 word) = c"
    by (simp only: hex_recombine of_nat_unat) simp
  then show ?thesis
    using top_digit [of c] by (simp add: hex4_def hexDigit_hexChar del: of_nat_add of_nat_mult)
qed

lemma parseChars_unicodeEscape:
  "parseChars (unicodeEscape c @ tail) = consResult c (parseChars tail)"
  by (simp add: unicodeEscape_def hex4_unicodeEscape)

lemma parseChars_plain:
  "c \<noteq> 0x22 \<Longrightarrow> c \<noteq> 0x5C \<Longrightarrow> \<not> c < 0x20 \<Longrightarrow>
   parseChars (c # tail) = consResult c (parseChars tail)"
  by simp

lemma parseChars_quoteUnit:
  "parseChars (quoteUnit c @ tail) = consResult c (parseChars tail)"
proof (cases "c = 0x08 \<or> c = 0x09 \<or> c = 0x0A \<or> c = 0x0C \<or> c = 0x0D \<or> c = 0x22 \<or> c = 0x5C")
  case True
  then show ?thesis
    by (elim disjE) (simp_all add: quoteUnit_def unescape_def)
next
  case False
  note plain = this
  show ?thesis
  proof (cases "c < 0x20 \<or> isLeadingSurrogate c \<or> isTrailingSurrogate c")
    case True
    with plain have "quoteUnit c = unicodeEscape c"
      by (simp add: quoteUnit_def)
    then show ?thesis by (simp only: parseChars_unicodeEscape)
  next
    case False
    with plain have "quoteUnit c = [c]"
      by (simp add: quoteUnit_def)
    with plain False show ?thesis by simp
  qed
qed

lemma surrogate_plain:
  "isLeadingSurrogate c \<or> isTrailingSurrogate c \<Longrightarrow> c \<noteq> 0x22 \<and> c \<noteq> 0x5C \<and> \<not> c < 0x20"
  by (auto simp add: isLeadingSurrogate_def isTrailingSurrogate_def word_le_nat_alt
      word_less_nat_alt)

lemma parseChars_quoteChars:
  "parseChars (quoteChars s @ 0x22 # rest) = Some (s, rest)"
proof (induction s rule: quoteChars.induct)
  case 1
  show ?case by simp
next
  case (2 c)
  have "parseChars (quoteUnit c @ 0x22 # rest) = consResult c (parseChars (0x22 # rest))"
    by (rule parseChars_quoteUnit)
  then show ?case by (simp add: consResult_def)
next
  case (3 c d cs)
  show ?case
  proof (cases "isLeadingSurrogate c \<and> isTrailingSurrogate d")
    case True
    then have q: "quoteChars (c # d # cs) = c # d # quoteChars cs"
      by simp
    from True 3 have ih: "parseChars (quoteChars cs @ 0x22 # rest) = Some (cs, rest)"
      by blast
    from True have c: "c \<noteq> 0x22" "c \<noteq> 0x5C" "\<not> c < 0x20"
      using surrogate_plain [of c] by blast+
    from True have d: "d \<noteq> 0x22" "d \<noteq> 0x5C" "\<not> d < 0x20"
      using surrogate_plain [of d] by blast+
    have "parseChars (c # d # quoteChars cs @ 0x22 # rest)
          = consResult c (consResult d (parseChars (quoteChars cs @ 0x22 # rest)))"
      by (simp only: parseChars_plain [OF c] parseChars_plain [OF d])
    then show ?thesis
      unfolding q by (simp add: ih consResult_def)
  next
    case False
    then have q: "quoteChars (c # d # cs) = quoteUnit c @ quoteChars (d # cs)"
      by auto
    from False 3 have ih: "parseChars (quoteChars (d # cs) @ 0x22 # rest) = Some (d # cs, rest)"
      by blast
    have "parseChars (quoteUnit c @ quoteChars (d # cs) @ 0x22 # rest)
          = consResult c (parseChars (quoteChars (d # cs) @ 0x22 # rest))"
      by (rule parseChars_quoteUnit)
    then show ?thesis
      unfolding q by (simp only: append_assoc ih consResult_def option.case prod.case)
  qed
qed

lemma parseValue_QuoteJSONString:
  "parseValue (QuoteJSONString s @ rest) = Some (JString s, rest)"
  by (subst parseValue.simps) (simp add: QuoteJSONString_def parseChars_quoteChars)

subsection \<open>Arrays and objects are read back\<close>

text \<open>
  The texts that \<^verbatim>\<open>JSON.stringify\<close> produces for strings, arrays and objects start
  with a double quote, a bracket or a brace.
\<close>

definition startsValue :: "jsstring \<Rightarrow> bool" where
  "startsValue t = (case t of [] \<Rightarrow> False | c # r \<Rightarrow> c = 0x22 \<or> c = 0x5B \<or> c = 0x7B)"

lemma startsValue_skipWs: "startsValue t \<Longrightarrow> skipWs (t @ s) = t @ s"
  by (auto simp add: startsValue_def skipWs_def isJSONWhiteSpace_def split: list.splits)

lemma startsValue_Cons: "startsValue t \<Longrightarrow> \<exists>c r. t = c # r \<and> c \<noteq> 0x5D \<and> c \<noteq> 0x7D"
  by (auto simp add: startsValue_def split: list.splits)

lemma joinComma_Cons: "joinComma (t # ts) = t @ (if ts = [] then [] else 0x2C # joinComma ts)"
  by (cases ts) simp_all

lemma skipWs_punct:
  "skipWs (0x2C # s) = 0x2C # s" "skipWs (0x5D # s) = 0x5D # s"
  "skipWs (0x7D # s) = 0x7D # s" "skipWs (0x3A # s) = 0x3A # s"
  "skipWs (0x22 # s) = 0x22 # s"
  by (simp_all add: skipWs_def isJSONWhiteSpace_def)

lemma parseValue_array:
  "skipWs s = c # r \<Longrightarrow> c \<noteq> 0x5D \<Longrightarrow> parseElements (skipWs s) = Some (vs, rest) \<Longrightarrow>
   parseValue (0x5B # s) = Some (JArray vs, rest)"
  by (subst parseValue.simps) simp

lemma parseValue_object:
  "skipWs s = c # r \<Longrightarrow> c \<noteq> 0x7D \<Longrightarrow> parseMembers (skipWs s) = Some (ms, rest) \<Longrightarrow>
   parseValue (0x7B # s) = Some (makeObject ms, rest)"
  by (subst parseValue.simps) simp

lemma parseElements_last:
  "parseValue s = Some (v, r) \<Longrightarrow> length r < length s \<Longrightarrow> skipWs r = 0x5D # r' \<Longrightarrow>
   parseElements s = Some ([v], r')"
  by (subst parseElements.simps) simp

lemma parseElements_more:
  "parseValue s = Some (v, r) \<Longrightarrow> length r < length s \<Longrightarrow> skipWs r = 0x2C # r' \<Longrightarrow>
   parseElements s = consResult v (parseElements (skipWs r'))"
  by (subst parseElements.simps) simp

lemma parseMembers_last:
  "parseChars s = Some (k, r1) \<Longrightarrow> skipWs r1 = 0x3A # r2 \<Longrightarrow>
   parseValue (skipWs r2) = Some (v, r3) \<Longrightarrow> length r3 < Suc (length s) \<Longrightarrow>
   skipWs r3 = 0x7D # r4 \<Longrightarrow> parseMembers (0x22 # s) = Some ([(k, v)], r4)"
  by (subst parseMembers.simps) simp

lemma parseMembers_more:
  "parseChars s = Some (k, r1) \<Longrightarrow> skipWs r1 = 0x3A # r2 \<Longrightarrow>
   parseValue (skipWs r2) = Some (v, r3) \<Longrightarrow> length r3 < Suc (length s) \<Longrightarrow>
   skipWs r3 = 0x2C # r4 \<Longrightarrow>
   parseMembers (0x22 # s) = consResult (k, v) (parseMembers (skipWs r4))"
  by (subst parseMembers.simps) simp

lemma parseElements_joinComma:
  assumes "tvs \<noteq> []"
    and "\<And>t j rest. (t, j) \<in> set tvs \<Longrightarrow> parseValue (t @ rest) = Some (j, rest)"
    and "\<And>t j. (t, j) \<in> set tvs \<Longrightarrow> startsValue t"
  shows "parseElements (joinComma (map fst tvs) @ 0x5D # rest) = Some (map snd tvs, rest)"
  using assms
proof (induction tvs)
  case Nil
  then show ?case by simp
next
  case (Cons p tvs)
  obtain t j where p: "p = (t, j)" by (cases p)
  have val: "parseValue (t @ s) = Some (j, s)" for s
    using Cons.prems(2) [of t j s] p by simp
  have t: "t \<noteq> []"
    using Cons.prems(3) [of t j] p by (auto simp add: startsValue_def)
  show ?case
  proof (cases "tvs = []")
    case True
    have "parseElements (t @ 0x5D # rest) = Some ([j], rest)"
      by (rule parseElements_last [OF val]) (use t in \<open>simp_all add: skipWs_punct\<close>)
    then show ?thesis
      by (simp add: True p)
  next
    case False
    then obtain t' j' tl where tl: "tvs = (t', j') # tl"
      by (cases tvs) auto
    have st': "startsValue t'"
      using Cons.prems(3) [of t' j'] tl by simp
    have ih: "parseElements (joinComma (map fst tvs) @ 0x5D # rest) = Some (map snd tvs, rest)"
    proof (rule Cons.IH [OF False])
      show "parseValue (u @ s) = Some (v, s)" if "(u, v) \<in> set tvs" for u v s
        using Cons.prems(2) [of u v s] that by simp
      show "startsValue u" if "(u, v) \<in> set tvs" for u v
        using Cons.prems(3) [of u v] that by simp
    qed
    have next_ws: "skipWs (joinComma (map fst tvs) @ 0x5D # rest)
                     = joinComma (map fst tvs) @ 0x5D # rest"
      using startsValue_skipWs [OF st'] by (simp add: tl joinComma_Cons)
    have "parseElements (t @ 0x2C # joinComma (map fst tvs) @ 0x5D # rest)
            = consResult j (parseElements (skipWs (joinComma (map fst tvs) @ 0x5D # rest)))"
      by (rule parseElements_more [OF val]) (use t in \<open>simp_all add: skipWs_punct\<close>)
    then show ?thesis
      using False by (simp add: p joinComma_Cons next_ws ih consResult_def)
  qed
qed

lemma parseValue_SerializeJSONArray:
  assumes "\<And>t j rest. (t, j) \<in> set tvs \<Longrightarrow> parseValue (t @ rest) = Some (j, rest)"
    and "\<And>t j. (t, j) \<in> set tvs \<Longrightarrow> startsValue t"
  shows "parseValue (SerializeJSONArray (map fst tvs) @ rest) = Some (JArray (map snd tvs), rest)"
proof (cases tvs)
  case Nil
  then show ?thesis
    by (subst parseValue.simps) (simp add: SerializeJSONArray_def skipWs_punct)
next
  case (Cons p tl)
  obtain t j where p: "p = (t, j)" by (cases p)
  let ?body = "joinComma (map fst tvs) @ 0x5D # rest"
  have st: "startsValue t"
    using assms(2) [of t j] Cons p by simp
  then obtain c r where t: "t = c # r" "c \<noteq> 0x5D"
    using startsValue_Cons by blast
  have ws: "skipWs ?body = ?body"
    using startsValue_skipWs [OF st] by (simp add: Cons p joinComma_Cons)
  obtain r' where body: "?body = c # r'"
    by (simp add: Cons p joinComma_Cons t)
  have sk: "skipWs ?body = c # r'"
    using ws body by simp
  have el: "parseElements (skipWs ?body) = Some (map snd tvs, rest)"
    unfolding ws by (rule parseElements_joinComma) (use assms Cons in auto)
  have "parseValue (0x5B # ?body) = Some (JArray (map snd tvs), rest)"
    by (rule parseValue_array [OF sk t(2) el])
  then show ?thesis
    by (simp add: SerializeJSONArray_def)
qed

text \<open>
  A member of an object under construction: its key, the text of its value and the value
  that the text stands for.
\<close>

definition memberText :: "jsstring \<times> jsstring \<times> json \<Rightarrow> jsstring" where
  "memberText m = (case m of (k, t, j) \<Rightarrow> QuoteJSONString k @ [0x3A] @ t)"

definition memberValue :: "jsstring \<times> jsstring \<times> json \<Rightarrow> jsstring \<times> json" where
  "memberValue m = (case m of (k, t, j) \<Rightarrow> (k, j))"

lemma memberText_Cons: "memberText (k, t, j) @ s = 0x22 # quoteChars k @ 0x22 # 0x3A # t @ s"
  by (simp add: memberText_def QuoteJSONString_def)

lemma parseMembers_joinComma:
  assumes "kts \<noteq> []"
    and "\<And>k t j rest. (k, t, j) \<in> set kts \<Longrightarrow> parseValue (t @ rest) = Some (j, rest)"
    and "\<And>k t j. (k, t, j) \<in> set kts \<Longrightarrow> startsValue t"
  shows "parseMembers (joinComma (map memberText kts) @ 0x7D # rest)
           = Some (map memberValue kts, rest)"
  using assms
proof (induction kts)
  case Nil
  then show ?case by simp
next
  case (Cons p kts)
  obtain k t j where p: "p = (k, t, j)" by (cases p)
  have st: "startsValue t"
    using Cons.prems(3) [of k t j] p by simp
  have val: "parseValue (skipWs (t @ s)) = Some (j, s)" for s
    using Cons.prems(2) [of k t j s] p startsValue_skipWs [OF st] by simp
  have key: "parseChars (quoteChars k @ 0x22 # 0x3A # t @ s) = Some (k, 0x3A # t @ s)" for s
    by (rule parseChars_quoteChars)
  show ?case
  proof (cases "kts = []")
    case True
    have "parseMembers (0x22 # quoteChars k @ 0x22 # 0x3A # t @ 0x7D # rest)
            = Some ([(k, j)], rest)"
    proof (rule parseMembers_last)
      show "parseChars (quoteChars k @ 0x22 # 0x3A # t @ 0x7D # rest)
              = Some (k, 0x3A # t @ 0x7D # rest)"
        by (rule key)
      show "skipWs (0x3A # t @ 0x7D # rest) = 0x3A # t @ 0x7D # rest"
        by (rule skipWs_punct)
      show "parseValue (skipWs (t @ 0x7D # rest)) = Some (j, 0x7D # rest)"
        by (rule val)
      show "length (0x7D # rest) < Suc (length (quoteChars k @ 0x22 # 0x3A # t @ 0x7D # rest))"
        by simp
      show "skipWs (0x7D # rest) = 0x7D # rest"
        by (rule skipWs_punct)
    qed
    then show ?thesis
      by (simp add: True p memberText_Cons memberValue_def)
  next
    case False
    then obtain p' tl where tl: "kts = p' # tl"
      by (cases kts) auto
    have ih: "parseMembers (joinComma (map memberText kts) @ 0x7D # rest)
                = Some (map memberValue kts, rest)"
    proof (rule Cons.IH [OF False])
      show "parseValue (u @ s) = Some (v, s)" if "(k', u, v) \<in> set kts" for k' u v s
        using Cons.prems(2) [of k' u v s] that by simp
      show "startsValue u" if "(k', u, v) \<in> set kts" for k' u v
        using Cons.prems(3) [of k' u v] that by simp
    qed
    obtain k' t' j' where p': "p' = (k', t', j')" by (cases p')
    have next_ws: "skipWs (joinComma (map memberText kts) @ 0x7D # rest)
                     = joinComma (map memberText kts) @ 0x7D # rest"
      by (simp add: tl p' joinComma_Cons memberText_def QuoteJSONString_def skipWs_punct)
    let ?tail = "joinComma (map memberText kts) @ 0x7D # rest"
    have "parseMembers (0x22 # quoteChars k @ 0x22 # 0x3A # t @ 0x2C # ?tail)
            = consResult (k, j) (parseMembers (skipWs ?tail))"
    proof (rule parseMembers_more)
      show "parseChars (quoteChars k @ 0x22 # 0x3A # t @ 0x2C # ?tail)
              = Some (k, 0x3A # t @ 0x2C # ?tail)"
        by (rule key)
      show "skipWs (0x3A # t @ 0x2C # ?tail) = 0x3A # t @ 0x2C # ?tail"
        by (rule skipWs_punct)
      show "parseValue (skipWs (t @ 0x2C # ?tail)) = Some (j, 0x2C # ?tail)"
        by (rule val)
      show "length (0x2C # ?tail) < Suc (length (quoteChars k @ 0x22 # 0x3A # t @ 0x2C # ?tail))"
        by simp
      show "skipWs (0x2C # ?tail) = 0x2C # ?tail"
        by (rule skipWs_punct)
    qed
    then show ?thesis
      using False
      by (simp add: p joinComma_Cons memberText_Cons next_ws ih consResult_def memberValue_def)
  qed
qed

lemma parseValue_SerializeJSONObject:
  assumes "\<And>k t j rest. (k, t, j) \<in> set kts \<Longrightarrow> parseValue (t @ rest) = Some (j, rest)"
    and "\<And>k t j. (k, t, j) \<in> set kts \<Longrightarrow> startsValue t"
  shows "parseValue (SerializeJSONObject (map (\<lambda>(k, t, j). (k, t)) kts) @ rest)
           = Some (makeObject (map memberValue kts), rest)"
proof -
  have "memberText = (\<lambda>x. QuoteJSONString (fst x) @ 0x3A # fst (snd x))"
    by (rule ext) (simp add: memberText_def case_prod_beta)
  then have ser: "SerializeJSONObject (map (\<lambda>(k, t, j). (k, t)) kts)
               = 0x7B # joinComma (map memberText kts) @ [0x7D]"
    by (simp add: SerializeJSONObject_def comp_def case_prod_beta)
  show ?thesis
  proof (cases kts)
    case Nil
    then show ?thesis
      unfolding ser
      by (subst parseValue.simps) (simp add: skipWs_punct makeObject_def)
  next
    case (Cons p tl)
    obtain k t j where p: "p = (k, t, j)" by (cases p)
    let ?body = "joinComma (map memberText kts) @ 0x7D # rest"
    obtain r' where body: "?body = 0x22 # r'"
      by (simp add: Cons p joinComma_Cons memberText_def QuoteJSONString_def)
    have sk: "skipWs ?body = 0x22 # r'"
      by (simp only: body skipWs_punct)
    have ws: "skipWs ?body = ?body"
      by (simp only: body skipWs_punct)
    have ms: "parseMembers (skipWs ?body) = Some (map memberValue kts, rest)"
      unfolding ws by (rule parseMembers_joinComma) (use assms Cons in auto)
    have "parseValue (0x7B # ?body) = Some (makeObject (map memberValue kts), rest)"
      by (rule parseValue_object [OF sk _ ms]) simp
    then show ?thesis
      by (simp add: ser)
  qed
qed

subsection \<open>The board is read back\<close>

lemma startsValue_QuoteJSONString: "startsValue (QuoteJSONString s)"
  by (simp add: startsValue_def QuoteJSONString_def)

lemma startsValue_SerializeJSONArray: "startsValue (SerializeJSONArray ts)"
  by (simp add: startsValue_def SerializeJSONArray_def)

lemma startsValue_SerializeJSONObject: "startsValue (SerializeJSONObject ms)"
  by (simp add: startsValue_def SerializeJSONObject_def)

lemma parseValue_stringifyTask:
  "parseValue (stringifyTask t @ rest) = Some (taskJson t, rest)"
proof -
  let ?kts = "[(js ''id'', QuoteJSONString (id_task t), JString (id_task t)),
               (js ''content'', QuoteJSONString (content t), JString (content t))]"
  have "parseValue (SerializeJSONObject (map (\<lambda>(k, t, j). (k, t)) ?kts) @ rest)
          = Some (makeObject (map memberValue ?kts), rest)"
    by (rule parseValue_SerializeJSONObject)
       (auto simp add: parseValue_QuoteJSONString startsValue_QuoteJSONString)
  moreover have "makeObject (map memberValue ?kts) = taskJson t"
    by (simp add: makeObject_def memberValue_def taskJson_def js_def)
  ultimately show ?thesis
    by (simp add: stringifyTask_def)
qed

lemma startsValue_stringifyTask: "startsValue (stringifyTask t)"
  by (simp add: stringifyTask_def startsValue_SerializeJSONObject)

lemma parseValue_stringifyTasks:
  "parseValue (SerializeJSONArray (map stringifyTask ts) @ rest)
     = Some (JArray (map taskJson ts), rest)"
proof -
  let ?tvs = "map (\<lambda>t. (stringifyTask t, taskJson t)) ts"
  have "parseValue (SerializeJSONArray (map fst ?tvs) @ rest) = Some (JArray (map snd ?tvs), rest)"
    by (rule parseValue_SerializeJSONArray)
       (auto simp add: parseValue_stringifyTask startsValue_stringifyTask)
  then show ?thesis
    by (simp add: comp_def)
qed

lemma parseValue_stringifyColumn:
  "parseValue (stringifyColumn c @ rest) = Some (columnJson c, rest)"
proof -
  let ?kts = "[(js ''id'', QuoteJSONString (id_column c), JString (id_column c)),
               (js ''title'', QuoteJSONString (title c), JString (title c)),
               (js ''tasks'', SerializeJSONArray (map stringifyTask (tasks c)),
                  JArray (map taskJson (tasks c)))]"
  have "parseValue (SerializeJSONObject (map (\<lambda>(k, t, j). (k, t)) ?kts) @ rest)
          = Some (makeObject (map memberValue ?kts), rest)"
    by (rule parseValue_SerializeJSONObject)
       (auto simp add: parseValue_QuoteJSONString startsValue_QuoteJSONString
          parseValue_stringifyTasks startsValue_SerializeJSONArray)
  moreover have "makeObject (map memberValue ?kts) = columnJson c"
    by (simp add: makeObject_def memberValue_def columnJson_def js_def)
  ultimately show ?thesis
    by (simp add: stringifyColumn_def)
qed

lemma startsValue_stringifyColumn: "startsValue (stringifyColumn c)"
  by (simp add: stringifyColumn_def startsValue_SerializeJSONObject)

lemma parseValue_JSON_stringify:
  "parseValue (JSON_stringify b @ rest) = Some (columnsJson b, rest)"
proof -
  let ?tvs = "map (\<lambda>c. (stringifyColumn c, columnJson c)) b"
  have "parseValue (SerializeJSONArray (map fst ?tvs) @ rest) = Some (JArray (map snd ?tvs), rest)"
    by (rule parseValue_SerializeJSONArray)
       (auto simp add: parseValue_stringifyColumn startsValue_stringifyColumn)
  then show ?thesis
    by (simp add: comp_def JSON_stringify_def columnsJson_def)
qed

lemma JSON_parse_JSON_stringify: "JSON_parse (JSON_stringify b) = Inr (columnsJson b)"
proof -
  have "skipWs (JSON_stringify b @ []) = JSON_stringify b @ []"
    unfolding JSON_stringify_def
    by (rule startsValue_skipWs [OF startsValue_SerializeJSONArray])
  then have "skipWs (JSON_stringify b) = JSON_stringify b"
    by simp
  moreover have "parseValue (JSON_stringify b) = Some (columnsJson b, [])"
    using parseValue_JSON_stringify [of b "[]"] by simp
  ultimately show ?thesis
    by (simp add: JSON_parse_def skipWs_def)
qed

lemma asTask_taskJson: "asTask (taskJson t) = Some t"
  by (simp add: asTask_def taskJson_def js_def)

lemma those_map_Some: "(\<And>x. f (g x) = Some x) \<Longrightarrow> those (map (f \<circ> g) xs) = Some xs"
  by (induction xs) simp_all

lemma asColumn_columnJson: "asColumn (columnJson c) = Some c"
  by (simp add: asColumn_def columnJson_def asArray_def those_map_Some asTask_taskJson js_def)

lemma asColumns_columnsJson: "asColumns (columnsJson b) = Some b"
  by (simp add: asColumns_def columnsJson_def asArray_def those_map_Some asColumn_columnJson)

lemma JSON_stringify_truthy: "JSON_stringify b \<noteq> []"
  by (simp add: JSON_stringify_def SerializeJSONArray_def)

subsection \<open>The parser consumes its input\<close>

lemma digits1_shorter: "digits1 s = Some (d, r) \<Longrightarrow> length r < length s"
proof -
  assume a: "digits1 s = Some (d, r)"
  then have ne: "takeWhile isDigit s \<noteq> []" and r: "r = dropWhile isDigit s"
    by (auto simp add: digits1_def split: if_splits)
  have "length (takeWhile isDigit s) + length (dropWhile isDigit s) = length s"
    by (metis length_append takeWhile_dropWhile_id)
  with ne r show ?thesis
    by (cases "takeWhile isDigit s") auto
qed

lemma parseInt_shorter: "parseInt s = Some (d, r) \<Longrightarrow> length r < length s"
  by (auto simp add: parseInt_def split: list.splits if_splits dest: digits1_shorter)

lemma parseFrac_shorter: "parseFrac s = Some (d, r) \<Longrightarrow> length r \<le> length s"
  by (auto simp add: parseFrac_def split: list.splits if_splits option.splits
      dest!: digits1_shorter)

lemma parseExp_shorter: "parseExp s = Some (d, r) \<Longrightarrow> length r \<le> length s"
  by (auto simp add: parseExp_def split: list.splits if_splits option.splits
      dest!: digits1_shorter)

lemma parseNumber_shorter: "parseNumber s = Some (n, r) \<Longrightarrow> length r < length s"
  by (auto simp add: parseNumber_def Let_def
      split: list.splits if_splits option.splits prod.splits
      dest!: parseInt_shorter parseFrac_shorter parseExp_shorter)

lemma take_Cons_nonempty: "take n s = x # xs \<Longrightarrow> 0 < length s \<and> 0 < n"
  by (cases s; cases n) auto

lemma parseLiteral_shorter: "parseLiteral s = Some (v, r) \<Longrightarrow> length r < length s"
  by (auto simp add: parseLiteral_def js_def split: if_splits option.splits
      dest!: parseNumber_shorter take_Cons_nonempty)

lemma skipWs_Cons_shorter: "skipWs t = x # r \<Longrightarrow> length r < length t"
  using length_skipWs [of t] by simp

lemma parse_shorter:
  "parseValue s = Some (v, r) \<longrightarrow> length r < length s"
  "parseElements s1 = Some (vs, r1) \<longrightarrow> length r1 < length s1"
  "parseMembers s2 = Some (ms, r2) \<longrightarrow> length r2 < length s2"
proof (induction s and s1 and s2 arbitrary: v r and vs r1 and ms r2
    rule: parseValue_parseElements_parseMembers.induct)
  case (1 s)
  show ?case
  proof
    assume a: "parseValue s = Some (v, r)"
    show "length r < length s"
    proof (cases s)
      case Nil
      with a show ?thesis
        by (simp add: parseValue.simps)
    next
      case (Cons c t)
      note pv = a [unfolded Cons parseValue.simps [of "c # t"], simplified]
      consider (str) "c = 0x22" | (arr) "c \<noteq> 0x22" "c = 0x5B"
        | (obj) "c \<noteq> 0x22" "c \<noteq> 0x5B" "c = 0x7B"
        | (lit) "c \<noteq> 0x22" "c \<noteq> 0x5B" "c \<noteq> 0x7B"
        by blast
      then show ?thesis
      proof cases
        case str
        with pv obtain x where "parseChars t = Some (x, r)"
          by (auto split: option.splits)
        then show ?thesis
          using parseChars_shorter Cons by fastforce
      next
        case arr
        with pv obtain x r' where sk: "skipWs t = x # r'"
          by (auto split: list.splits)
        show ?thesis
        proof (cases "x = 0x5D")
          case True
          with pv arr sk have "r = r'" by simp
          then show ?thesis
            using skipWs_Cons_shorter [OF sk] Cons by simp
        next
          case False
          with pv arr sk obtain vs where "parseElements (skipWs t) = Some (vs, r)"
            by (auto split: option.splits)
          then have "length r < length (skipWs t)"
            using "1.IH"(1) [OF Cons arr sk False] by blast
          then show ?thesis
            using length_skipWs [of t] Cons by simp
        qed
      next
        case obj
        with pv obtain x r' where sk: "skipWs t = x # r'"
          by (auto split: list.splits)
        show ?thesis
        proof (cases "x = 0x7D")
          case True
          with pv obj sk have "r = r'" by simp
          then show ?thesis
            using skipWs_Cons_shorter [OF sk] Cons by simp
        next
          case False
          with pv obj sk obtain ms where "parseMembers (skipWs t) = Some (ms, r)"
            by (auto split: option.splits)
          then have "length r < length (skipWs t)"
            using "1.IH"(2) [OF Cons obj sk False] by blast
          then show ?thesis
            using length_skipWs [of t] Cons by simp
        qed
      next
        case lit
        with pv have "parseLiteral (c # t) = Some (v, r)"
          by simp
        then show ?thesis
          using parseLiteral_shorter Cons by fastforce
      qed
    qed
  qed
next
  case (2 s)
  show ?case
  proof
    assume a: "parseElements s = Some (vs, r1)"
    then obtain v r where pv: "parseValue s = Some (v, r)" and lt: "length r < length s"
      by (subst (asm) parseElements.simps) (auto split: option.splits if_splits)
    from a pv lt obtain x r' where sk: "skipWs r = x # r'"
      by (subst (asm) parseElements.simps) (auto split: list.splits)
    from a have pe: "(if x = 0x2C then consResult v (parseElements (skipWs r'))
          else if x = 0x5D then Some ([v], r') else None) = Some (vs, r1)"
      by (subst (asm) parseElements.simps) (simp add: pv lt sk)
    show "length r1 < length s"
    proof (cases "x = 0x2C")
      case True
      with pe obtain vs' where "parseElements (skipWs r') = Some (vs', r1)"
        by (auto simp add: consResult_def split: option.splits)
      then have "length r1 < length (skipWs r')"
        using "2.IH"(2) [OF pv refl lt sk True] by blast
      then show ?thesis
        using length_skipWs [of r'] skipWs_Cons_shorter [OF sk] lt by simp
    next
      case False
      with pe have "r1 = r'"
        by (auto split: if_splits)
      then show ?thesis
        using skipWs_Cons_shorter [OF sk] lt by simp
    qed
  qed
next
  case (3 s)
  show ?case
  proof
    assume a: "parseMembers s = Some (ms, r2)"
    then obtain t where s: "s = 0x22 # t"
      by (subst (asm) parseMembers.simps) (auto split: list.splits if_splits)
    from a s obtain k ra where key: "parseChars t = Some (k, ra)"
      by (subst (asm) parseMembers.simps) (auto split: option.splits)
    from a s key obtain rb where colon: "skipWs ra = 0x3A # rb"
      by (subst (asm) parseMembers.simps) (auto split: list.splits if_splits)
    from a s key colon obtain v rc where val: "parseValue (skipWs rb) = Some (v, rc)"
        and lt: "length rc < length s"
      by (subst (asm) parseMembers.simps) (auto split: option.splits if_splits)
    from a s key colon val lt obtain x rd where sk: "skipWs rc = x # rd"
      by (subst (asm) parseMembers.simps) (auto split: list.splits)
    from a have pm: "(if x = 0x2C then consResult (k, v) (parseMembers (skipWs rd))
          else if x = 0x7D then Some ([(k, v)], rd) else None) = Some (ms, r2)"
      using lt by (subst (asm) parseMembers.simps) (simp add: s key colon val sk)
    show "length r2 < length s"
    proof (cases "x = 0x2C")
      case True
      with pm obtain ms' where "parseMembers (skipWs rd) = Some (ms', r2)"
        by (auto simp add: consResult_def split: option.splits)
      then have "length r2 < length (skipWs rd)"
        using "3.IH"(2) [OF s refl key refl colon refl val refl lt sk True] by blast
      then show ?thesis
        using length_skipWs [of rd] skipWs_Cons_shorter [OF sk] lt by simp
    next
      case False
      with pm have "r2 = rd"
        by (auto split: if_splits)
      then show ?thesis
        using skipWs_Cons_shorter [OF sk] lt by simp
    qed
  qed
qed

lemma parseValue_shorter: "parseValue s = Some (v, r) \<Longrightarrow> length r < length s"
  using parse_shorter(1) by blast

lemma parseElements_unguarded:
  "parseElements s =
     (case parseValue s of
        None \<Rightarrow> None
      | Some (v, r) \<Rightarrow>
          (case skipWs r of
             [] \<Rightarrow> None
           | x # r' \<Rightarrow>
               if x = 0x2C then consResult v (parseElements (skipWs r'))
               else if x = 0x5D then Some ([v], r')
               else None))"
  by (subst parseElements.simps) (auto split: option.splits dest: parseValue_shorter)

lemma parseMembers_guard:
  "parseChars t = Some (k, ra) \<Longrightarrow> skipWs ra = c # rb \<Longrightarrow>
   parseValue (skipWs rb) = Some (v, rc) \<Longrightarrow> length rc < length (0x22 # t)"
  using parseChars_shorter [of t k ra] skipWs_Cons_shorter [of ra c rb]
    parseValue_shorter [of "skipWs rb" v rc] length_skipWs [of rb]
  by simp

subsection \<open>Save and load\<close>

text \<open>
  C7. For every board, \<^verbatim>\<open>JSON.parse\<close> of its \<^verbatim>\<open>JSON.stringify\<close> text succeeds and gives
  the JavaScript value of the same board: the same columns in the same order, each with
  the same tasks (ids and contents) in the same order. So the load effect, run on what
  the save effect has stored for any state, puts exactly that state's board in place.
\<close>

theorem C7_roundtrip:
  "JSON_parse (JSON_stringify b) = Inr (columnsJson b) \<and>
   asColumns (columnsJson b) = Some b \<and>
   loadEffect (saveEffect st localStorage) st' = Inr (Loaded (st'\<lparr>columns := columns st\<rparr>))"
  by (simp add: JSON_parse_JSON_stringify asColumns_columnsJson loadEffect_def saveEffect_def
      JSON_stringify_truthy)

text \<open>
  C2, as claimed: the load either decodes the stored value as a board or, when it is
  malformed, yields the default board, and no decoding error leaves the load. With the
  stored text \<open>not json\<close>, \<^verbatim>\<open>JSON.parse\<close> throws a SyntaxError and the effect does not
  catch it.
\<close>

theorem C2_counterexample:
  "loadEffect [js ''kanban-columns'' \<mapsto> js ''not json''] initialState = Inl SyntaxError"
  by (simp add: loadEffect_def JSON_parse_def skipWs_def isJSONWhiteSpace_def js_def
      parseValue.simps parseLiteral_def parseNumber_def parseInt_def digits1_def isDigit_def)

text \<open>
  C2, amended: when the key is absent or holds the empty string, the state stays as it
  is (the default board); when the stored value is JSON text of a board, that board
  replaces the columns; when it is JSON text of anything else, the value is stored
  unchecked; when it is not JSON text, the SyntaxError of \<^verbatim>\<open>JSON.parse\<close> propagates
  out of the load effect and the default board is not restored.
\<close>

theorem C2_loadEffect:
  "(localStorage (js ''kanban-columns'') = None \<or>
    localStorage (js ''kanban-columns'') = Some [] \<longrightarrow>
      loadEffect localStorage st = Inr (Loaded st)) \<and>
   (localStorage (js ''kanban-columns'') = Some s \<and> s \<noteq> [] \<and> JSON_parse s = Inr v \<and>
    asColumns v = Some b \<longrightarrow>
      loadEffect localStorage st = Inr (Loaded (st\<lparr>columns := b\<rparr>))) \<and>
   (localStorage (js ''kanban-columns'') = Some s \<and> s \<noteq> [] \<and> JSON_parse s = Inr v \<and>
    asColumns v = None \<longrightarrow>
      loadEffect localStorage st = Inr (Untyped v)) \<and>
   (localStorage (js ''kanban-columns'') = Some s \<and> s \<noteq> [] \<and> JSON_parse s = Inl e \<longrightarrow>
      loadEffect localStorage st = Inl e)"
  by (auto simp add: loadEffect_def)

lemma JSON_parse_empty_object: "JSON_parse (js ''{}'') = Inr (JObject [])"
  by (simp add: JSON_parse_def skipWs_def isJSONWhiteSpace_def js_def parseValue.simps)

theorem C2_loadEffect_witness:
  "loadEffect Map.empty initialState = Inr (Loaded initialState) \<and>
   loadEffect (saveEffect oneTaskBoard Map.empty) initialState
     = Inr (Loaded (initialState\<lparr>columns := columns oneTaskBoard\<rparr>)) \<and>
   loadEffect [js ''kanban-columns'' \<mapsto> js ''{}''] initialState = Inr (Untyped (JObject [])) \<and>
   loadEffect [js ''kanban-columns'' \<mapsto> js ''not json''] initialState = Inl SyntaxError"
proof -
  let ?key = "js ''kanban-columns''"
  have absent: "loadEffect Map.empty initialState = Inr (Loaded initialState)"
    using C2_loadEffect [where localStorage = Map.empty and st = initialState] by simp
  have "saveEffect oneTaskBoard Map.empty ?key = Some (JSON_stringify (columns oneTaskBoard)) \<and>
        JSON_stringify (columns oneTaskBoard) \<noteq> [] \<and>
        JSON_parse (JSON_stringify (columns oneTaskBoard)) = Inr (columnsJson (columns oneTaskBoard)) \<and>
        asColumns (columnsJson (columns oneTaskBoard)) = Some (columns oneTaskBoard)"
    by (simp add: saveEffect_def JSON_stringify_truthy JSON_parse_JSON_stringify
        asColumns_columnsJson)
  then have saved: "loadEffect (saveEffect oneTaskBoard Map.empty) initialState
      = Inr (Loaded (initialState\<lparr>columns := columns oneTaskBoard\<rparr>))"
    using C2_loadEffect [where localStorage = "saveEffect oneTaskBoard Map.empty"
        and st = initialState and s = "JSON_stringify (columns oneTaskBoard)"
        and v = "columnsJson (columns oneTaskBoard)" and b = "columns oneTaskBoard"]
    by blast
  have "[?key \<mapsto> js ''{}''] ?key = Some (js ''{}'') \<and> js ''{}'' \<noteq> [] \<and>
        JSON_parse (js ''{}'') = Inr (JObject []) \<and> asColumns (JObject []) = None"
    by (simp add: JSON_parse_empty_object asColumns_def asArray_def) (simp add: js_def)
  then have untyped: "loadEffect [?key \<mapsto> js ''{}''] initialState = Inr (Untyped (JObject []))"
    using C2_loadEffect [where localStorage = "[?key \<mapsto> js ''{}'']" and st = initialState
        and s = "js ''{}''" and v = "JObject []"]
    by blast
  have "[?key \<mapsto> js ''not json''] ?key = Some (js ''not json'') \<and> js ''not json'' \<noteq> [] \<and>
        JSON_parse (js ''not json'') = Inl SyntaxError"
    by (simp add: JSON_parse_def skipWs_def isJSONWhiteSpace_def js_def
        parseValue.simps parseLiteral_def parseNumber_def parseInt_def digits1_def isDigit_def)
  then have thrown: "loadEffect [?key \<mapsto> js ''not json''] initialState = Inl SyntaxError"
    using C2_loadEffect [where localStorage = "[?key \<mapsto> js ''not json'']"
        and st = initialState and s = "js ''not json''" and e = SyntaxError]
    by blast
  show ?thesis
    using absent saved untyped thrown by blast
qed

end
